theory Spec2Isabelle
  imports Complex_Main "HOL-Library.Multiset"
begin

section \<open>JavaScript values and string functions\<close>

text \<open>
  Strings are lists of characters. The whitespace that \<open>trim\<close> and \<open>parseInt\<close> skip is
  taken to be the ASCII whitespace (space, tab, line feed, vertical tab, form feed,
  carriage return); the remote commands of this program print ASCII there.
\<close>

definition is_space :: "char \<Rightarrow> bool" where
  "is_space c = (c \<in> set [CHR 0x20, CHR 0x09, CHR 0x0A, CHR 0x0B, CHR 0x0C, CHR 0x0D])"

definition is_digit :: "char \<Rightarrow> bool" where
  "is_digit c = (48 \<le> (of_char c :: nat) \<and> (of_char c :: nat) \<le> 57)"

definition digit_val :: "char \<Rightarrow> nat" where
  "digit_val c = of_char c - 48"

definition trim :: "string \<Rightarrow> string" where
  "trim s = rev (dropWhile is_space (rev (dropWhile is_space s)))"

definition digits_val :: "string \<Rightarrow> nat" where
  "digits_val ds = foldl (\<lambda>a c. 10 * a + digit_val c) 0 ds"

text \<open>
  \<open>parseInt(s, 10)\<close>: leading whitespace, an optional sign, then the longest run of
  decimal digits; \<open>None\<close> is \<open>NaN\<close> (no digit there).
\<close>

definition parseInt :: "string \<Rightarrow> int option" where
  "parseInt s =
     (let t = dropWhile is_space s;
          neg = (case t of c # _ \<Rightarrow> c = CHR ''-'' | [] \<Rightarrow> False);
          u = (case t of c # r \<Rightarrow> if c = CHR ''-'' \<or> c = CHR ''+'' then r else t | [] \<Rightarrow> t);
          ds = takeWhile is_digit u
      in if ds = [] then None
         else Some (if neg then - int (digits_val ds) else int (digits_val ds)))"

text \<open>\<open>x || 0\<close> for a number \<open>x\<close>: \<open>NaN\<close> and \<open>0\<close> give \<open>0\<close>.\<close>

definition or_zero :: "int option \<Rightarrow> int" where
  "or_zero x = (case x of None \<Rightarrow> 0 | Some n \<Rightarrow> n)"

definition digit_char :: "nat \<Rightarrow> char" where
  "digit_char d = ''0123456789'' ! d"

text \<open>\<open>String(n)\<close> for a natural number: its decimal digits.\<close>

function string_of_nat :: "nat \<Rightarrow> string" where
  "string_of_nat n =
     (if n < 10 then [digit_char n] else string_of_nat (n div 10) @ [digit_char (n mod 10)])"
  by pat_completeness auto
termination
  by (relation "measure id") auto

declare string_of_nat.simps [simp del]

text \<open>\<open>s.padStart(n, c)\<close> with a one-character filler.\<close>

definition padStart :: "nat \<Rightarrow> char \<Rightarrow> string \<Rightarrow> string" where
  "padStart n c s = replicate (n - length s) c @ s"

definition startsWith :: "string \<Rightarrow> string \<Rightarrow> bool" where
  "startsWith s p = (take (length p) s = p)"

text \<open>\<open>s.includes(sub)\<close>: \<open>sub\<close> occurs in \<open>s\<close> as a run of consecutive characters.\<close>

fun includes_str :: "string \<Rightarrow> string \<Rightarrow> bool" where
  "includes_str [] sub = (sub = [])"
| "includes_str (c # cs) sub = (startsWith (c # cs) sub \<or> includes_str cs sub)"

text \<open>\<open>s.replace(sub, '')\<close> with a string pattern: the first occurrence is removed.\<close>

fun remove_first :: "string \<Rightarrow> string \<Rightarrow> string" where
  "remove_first sub [] = []"
| "remove_first sub (c # cs) =
     (if startsWith (c # cs) sub then drop (length sub) (c # cs) else c # remove_first sub cs)"

text \<open>\<open>s.replace(/^\//, '')\<close>: one leading slash is removed.\<close>

definition strip_leading_slash :: "string \<Rightarrow> string" where
  "strip_leading_slash s = (case s of c # r \<Rightarrow> if c = CHR ''/'' then r else s | [] \<Rightarrow> s)"

text \<open>\<open>s.split(c)\<close> for a one-character separator, and \<open>xs.join(sep)\<close>.\<close>

fun split_on :: "char \<Rightarrow> string \<Rightarrow> string list" where
  "split_on sep [] = [[]]"
| "split_on sep (c # cs) =
     (case split_on sep cs of
        [] \<Rightarrow> [[]]
      | l # ls \<Rightarrow> if c = sep then [] # l # ls else (c # l) # ls)"

fun join :: "string \<Rightarrow> string list \<Rightarrow> string" where
  "join sep [] = []"
| "join sep [x] = x"
| "join sep (x # y # ys) = x @ sep @ join sep (y # ys)"

text \<open>\<open>s.indexOf(c)\<close>: the position of the first \<open>c\<close>, \<open>None\<close> for \<open>-1\<close>.\<close>

fun indexOf :: "char \<Rightarrow> string \<Rightarrow> nat option" where
  "indexOf c [] = None"
| "indexOf c (d # ds) =
     (if d = c then Some 0 else (case indexOf c ds of None \<Rightarrow> None | Some i \<Rightarrow> Some (Suc i)))"

subsection \<open>Numbers\<close>

text \<open>
  A JavaScript number is an IEEE 754 double. A finite double is given here by its value,
  a rational. \<open>+\<close>, \<open>*\<close> and \<open>/\<close> return the exact result rounded to the nearest double, a
  tie to the one with the even significand: \<open>to_double\<close> is that rounding, to 53
  significant bits, for the numbers whose binary exponent is in the normal range
  (from \<open>2^-1022\<close> up to, not including, \<open>2^1024\<close>) and for \<open>0\<close>. The numbers of this program
  that are divided and multiplied are percentages and the indexes and lengths of arrays,
  all integers below \<open>2^53\<close>, which are doubles, and all in this range.

  \<open>bit_length n\<close> is the number of binary digits of \<open>n\<close>, and \<open>expo x\<close> the binary exponent of
  a positive \<open>x\<close>: \<open>2^(expo x) \<le> x < 2^(expo x + 1)\<close>.
\<close>

fun bit_length :: "nat \<Rightarrow> nat" where
  "bit_length n = (if n = 0 then 0 else Suc (bit_length (n div 2)))"

declare bit_length.simps [simp del]

definition expo :: "rat \<Rightarrow> int" where
  "expo x =
     (if 1 \<le> x then int (bit_length (nat \<lfloor>x\<rfloor>)) - 1
      else - int (bit_length (nat (\<lceil>1 / x\<rceil> - 1))))"

definition round_half_even :: "rat \<Rightarrow> int" where
  "round_half_even m =
     (let f = \<lfloor>m\<rfloor>; d = m - of_int f
      in if d < 1 / 2 then f else if 1 / 2 < d then f + 1 else if even f then f else f + 1)"

definition nearest_double :: "rat \<Rightarrow> rat" where
  "nearest_double x =
     (let ulp = 2 powi (expo x - 52) in of_int (round_half_even (x / ulp)) * ulp)"

definition to_double :: "rat \<Rightarrow> rat" where
  "to_double x =
     (if x = 0 then 0 else if x < 0 then - nearest_double (- x) else nearest_double x)"

definition js_add :: "rat \<Rightarrow> rat \<Rightarrow> rat" where
  "js_add x y = to_double (x + y)"

definition js_mul :: "rat \<Rightarrow> rat \<Rightarrow> rat" where
  "js_mul x y = to_double (x * y)"

text \<open>\<open>x / y\<close> for \<open>y\<close> other than \<open>0\<close>.\<close>

definition js_div :: "rat \<Rightarrow> rat \<Rightarrow> rat" where
  "js_div x y = to_double (x / y)"

text \<open>
  \<open>Math.round(x)\<close> of a double \<open>x\<close>: the nearest integer, a half upwards. This is exact, no
  rounding of \<open>x + 0.5\<close> is involved.
\<close>

definition js_round :: "rat \<Rightarrow> int" where
  "js_round x = \<lfloor>x + 1 / 2\<rfloor>"

subsection \<open>Arrays\<close>

text \<open>\<open>xs.slice(start, end)\<close> on integers: a negative index counts from the end.\<close>

definition js_slice :: "'a list \<Rightarrow> int \<Rightarrow> int \<Rightarrow> 'a list" where
  "js_slice xs start end' =
     (let len = int (length xs);
          k = (if start < 0 then max (len + start) 0 else min start len);
          fin = (if end' < 0 then max (len + end') 0 else min end' len)
      in take (nat (fin - k)) (drop (nat k) xs))"

section \<open>Data model\<close>

text \<open>
  The types of \<open>shared/types.ts\<close> that the services use. Fields no service reads or
  writes (a job's display name, status and time stamps, an item's \<open>eta\<close>, a server's
  authentication material) are left out. Two records cannot share a field name, so the
  fields of \<open>FileDestinationProgress\<close> and \<open>UploadedFileInfo\<close> carry a prefix.
\<close>

datatype item_status =
  Pending | Zipping | Uploading | Uploaded | Downloading | Extracting | Completed | Failed

record transfer_item =
  item_id :: string
  fileName :: string
  sourcePath :: string
  drivePath :: string
  destinationPath :: string
  status :: item_status
  progress :: int
  speed :: "string option"
  error :: "string option"
  createdAt :: string
  completedAt :: "string option"
  retryCount :: int

datatype dest_status =
  Dest_pending | Dest_downloading | Dest_extracting | Dest_completed | Dest_failed

record file_destination_progress =
  serverId :: string
  serverName :: string
  dest_status :: dest_status
  dest_progress :: int
  dest_error :: "string option"

record uploaded_file_info =
  file_id :: string
  file_fileName :: string
  file_drivePath :: string
  uploadedAt :: string
  file_size_text :: string
  destinations :: "file_destination_progress list"

text \<open>The object \<open>job._zipInfo\<close> that \<open>prepareSourceFiles\<close> attaches to the job.\<close>

record zip_info =
  needsSplit :: bool
  limitMB :: int
  baseZipName :: string
  baseZipPath :: string
  totalBytes :: int
  actualParts :: "nat option"

record transfer_job =
  job_id :: string
  sourceServerId :: string
  destinationServerIds :: "string list"
  sourceFolder :: string
  destinationFolder :: string
  driveFolder :: string
  zipSizeLimitMB :: int
  deleteAfterUpload :: bool
  deleteFromDrive :: bool
  autoExtract :: bool
  items :: "transfer_item list"
  zipInfo :: "zip_info option"

record ssh_config =
  cfg_id :: string
  cfg_name :: string
  cfg_host :: string
  cfg_port :: nat
  cfg_username :: string

text \<open>An entry of \<open>sftp.readdir\<close> and an item of a directory listing.\<close>

record dir_entry =
  filename :: string
  isDirectory :: bool
  attr_size :: int
  attr_mtime :: int

datatype entry_type = File_entry | Directory_entry

record list_item =
  li_name :: string
  li_type :: entry_type
  li_size :: int
  li_modifyTime :: int

section \<open>Remote commands\<close>

text \<open>
  Every command line the services send to a host, by the place that builds it;
  \<open>render\<close> gives the text. \<open>Raw\<close> is any other text passed to \<open>SSHService.exec\<close>.
\<close>

datatype command =
    Rclone_version
  | Install_script
  | Install_user
  | Add_path
  | Mkdir_config
  | Write_config string
  | Rclone_copyto string string
  | Rclone_deletefile string
  | Du string
  | Find_files string
  | Write_filelist string string
  | Zip_batch string string string
  | Zip_all string string
  | Stat_size string
  | Rm_f string
  | Unzip_to string string
  | Mv string string
  | Bulk_unzip string string
  | Bulk_rm string string
  | Raw string

definition dquote :: "string \<Rightarrow> string" where
  "dquote s = CHR 0x22 # s @ [CHR 0x22]"

definition squote :: "string \<Rightarrow> string" where
  "squote s = CHR 0x27 # s @ [CHR 0x27]"

definition newline :: string where
  "newline = [CHR 0x0A]"

definition backslash :: string where
  "backslash = [CHR 0x5C]"

text \<open>\<open>configContent.replace(/'/g, "'\\''")\<close> of \<open>copyConfigToServer\<close>.\<close>

definition escape_quotes :: "string \<Rightarrow> string" where
  "escape_quotes s = concat (map (\<lambda>c. if c = CHR 0x27 then squote backslash @ [CHR 0x27] else [c]) s)"

fun render :: "command \<Rightarrow> string" where
  "render Rclone_version = ''rclone version 2>/dev/null | head -1''"
| "render Install_script = ''curl https://rclone.org/install.sh | sudo bash''"
| "render Install_user =
     newline @ ''          mkdir -p ~/bin &&'' @ newline @ ''          cd /tmp &&'' @ newline
     @ ''          curl -O https://downloads.rclone.org/rclone-current-linux-amd64.zip &&'' @ newline
     @ ''          unzip -o rclone-current-linux-amd64.zip &&'' @ newline
     @ ''          cp rclone-*-linux-amd64/rclone ~/bin/ &&'' @ newline
     @ ''          chmod +x ~/bin/rclone &&'' @ newline @ ''          rm -rf rclone-*'' @ newline
     @ ''        ''"
| "render Add_path = ''echo '' @ squote (''export PATH='' @ dquote ''$HOME/bin:$PATH'') @ '' >> ~/.bashrc''"
| "render Mkdir_config = ''mkdir -p ~/.config/rclone''"
| "render (Write_config content) =
     ''echo '' @ squote (escape_quotes content) @ '' > ~/.config/rclone/rclone.conf''"
| "render (Rclone_copyto src dst) =
     ''rclone copyto '' @ dquote src @ '' '' @ dquote dst @ '' --progress --stats 1s 2>&1''"
| "render (Rclone_deletefile target) = ''rclone deletefile '' @ dquote target @ '' 2>&1''"
| "render (Du folder) = ''du -sb '' @ dquote folder @ '' | cut -f1''"
| "render (Find_files folder) =
     ''find '' @ dquote folder @ '' -type f -exec stat --printf='' @ squote (''%s %n'' @ backslash @ ''n'')
     @ '' {} '' @ backslash @ ''; 2>/dev/null''"
| "render (Write_filelist listPath content) =
     ''cat > '' @ dquote listPath @ '' << '' @ squote ''FILELIST'' @ newline @ content @ newline @ ''FILELIST''"
| "render (Zip_batch folder partPath listPath) =
     ''cd '' @ dquote folder @ '' && zip -rv '' @ dquote partPath @ '' -@ < '' @ dquote listPath @ '' 2>&1''"
| "render (Zip_all folder zipPath) =
     ''cd '' @ dquote folder @ '' && zip -rv '' @ dquote zipPath @ '' . 2>&1''"
| "render (Stat_size target) = ''stat -c%s '' @ dquote target"
| "render (Rm_f target) = ''rm -f '' @ dquote target"
| "render (Unzip_to zipPath folder) = ''unzip -o '' @ dquote zipPath @ '' -d '' @ dquote folder"
| "render (Mv src dst) = ''mv '' @ dquote src @ '' '' @ dquote dst"
| "render (Bulk_unzip folder base) =
     ''cd '' @ dquote folder @ '' && unzip -o '' @ dquote (base @ ''.part*.zip'')"
| "render (Bulk_rm folder base) = ''cd '' @ dquote folder @ '' && rm '' @ dquote (base @ ''.part*.zip'')"
| "render (Raw text) = text"

text \<open>The commands that extract an archive on a destination.\<close>

fun is_extract :: "command \<Rightarrow> bool" where
  "is_extract (Unzip_to zipPath folder) = True"
| "is_extract (Bulk_unzip folder base) = True"
| "is_extract c = False"

section \<open>The environment and the state of the main process\<close>

text \<open>
  What the program does not decide is a parameter: the replies of the hosts, the local
  rclone configuration file, the clock, the random identifiers and three library functions
  (a regular expression, the byte formatter built on floating point, and the collation
  of \<open>localeCompare\<close>). A reply is indexed by the number of remote operations made
  before it, so a host may answer the same command differently later.
\<close>

datatype stream = Stdout | Stderr

record env =
  dial :: "nat \<Rightarrow> ssh_config \<Rightarrow> string option"
  run :: "nat \<Rightarrow> string \<Rightarrow> string \<Rightarrow> string + (stream \<times> string) list"
  sftp_open :: "nat \<Rightarrow> string \<Rightarrow> string option"
  fastPut :: "nat \<Rightarrow> string \<Rightarrow> string \<Rightarrow> string \<Rightarrow> string option"
  fastGet :: "nat \<Rightarrow> string \<Rightarrow> string \<Rightarrow> string \<Rightarrow> string option"
  readdir :: "nat \<Rightarrow> string \<Rightarrow> string \<Rightarrow> string + dir_entry list"
  localConfig :: "string option"
  speedMatch :: "string \<Rightarrow> string option"
  formatBytes :: "int \<Rightarrow> string"
  isoNow :: "nat \<Rightarrow> string"
  dateNow :: "nat \<Rightarrow> nat"
  randomId :: "nat \<Rightarrow> string"
  localeCompare :: "string \<Rightarrow> string \<Rightarrow> int"

text \<open>The messages sent to the windows of the user interface.\<close>

datatype broadcast =
    Transfer_progress string string int item_status
  | File_uploaded string uploaded_file_info
  | File_progress string uploaded_file_info

text \<open>
  The state: the connection pool of \<open>SSHService\<close>, the map \<open>uploadedFiles\<close> of
  \<open>TransferService\<close>, the servers and jobs of the configuration store, and what the
  outside has seen: the commands started on the hosts and the messages sent to the user
  interface, oldest first. Log entries are not modelled.
\<close>

record world =
  connections :: "string \<rightharpoonup> ssh_config"
  tick :: nat
  commands :: "(string \<times> command) list"
  broadcasts :: "broadcast list"
  uploadedFiles :: "string \<rightharpoonup> uploaded_file_info list"
  servers :: "ssh_config list"
  jobs :: "transfer_job list"

section \<open>SSHService\<close>

definition no_connection :: "string \<Rightarrow> string" where
  "no_connection connectionId = ''No connection found with id: '' @ connectionId"

text \<open>
  \<open>connect\<close> reuses a pooled session; otherwise it dials, and the session enters the pool
  on \<open>ready\<close>. It resolves to \<open>{success, error}\<close> and never rejects.
\<close>

definition connect :: "env \<Rightarrow> ssh_config \<Rightarrow> world \<Rightarrow> (bool \<times> string option) \<times> world" where
  "connect E config w =
     (if connections w (cfg_id config) \<noteq> None then ((True, None), w)
      else (case dial E (tick w) config of
              None \<Rightarrow>
                ((True, None),
                 w\<lparr>connections := (connections w)(cfg_id config \<mapsto> config), tick := Suc (tick w)\<rparr>)
            | Some message \<Rightarrow>
                ((False, Some message),
                 w\<lparr>connections := (connections w)(cfg_id config := None), tick := Suc (tick w)\<rparr>)))"

definition disconnect :: "string \<Rightarrow> world \<Rightarrow> world" where
  "disconnect connectionId w =
     (case connections w connectionId of
        None \<Rightarrow> w
      | Some connection \<Rightarrow> w\<lparr>connections := (connections w)(connectionId := None)\<rparr>)"

definition stream_text :: "stream \<Rightarrow> (stream \<times> string) list \<Rightarrow> string" where
  "stream_text st chunks = trim (concat (map snd (filter (\<lambda>c. fst c = st) chunks)))"

text \<open>
  \<open>exec\<close> throws when the pool has no session for the id, rejects with the error of
  \<open>client.exec\<close>, and otherwise resolves with the trimmed outputs once the command has
  run. \<open>execWithProgress\<close> also hands every chunk to \<open>onProgress\<close>; the model returns the
  chunks, and the caller folds its callback over them.
\<close>

definition execWithProgress ::
  "env \<Rightarrow> string \<Rightarrow> command \<Rightarrow> world
    \<Rightarrow> (string + (stream \<times> string) list \<times> string \<times> string) \<times> world" where
  "execWithProgress E connectionId cmd w =
     (case connections w connectionId of
        None \<Rightarrow> (Inl (no_connection connectionId), w)
      | Some connection \<Rightarrow>
          (case run E (tick w) connectionId (render cmd) of
             Inl err \<Rightarrow> (Inl err, w\<lparr>tick := Suc (tick w)\<rparr>)
           | Inr chunks \<Rightarrow>
               (Inr (chunks, stream_text Stdout chunks, stream_text Stderr chunks),
                w\<lparr>tick := Suc (tick w), commands := commands w @ [(connectionId, cmd)]\<rparr>)))"

definition exec ::
  "env \<Rightarrow> string \<Rightarrow> command \<Rightarrow> world \<Rightarrow> (string + string \<times> string) \<times> world" where
  "exec E connectionId cmd w =
     (case execWithProgress E connectionId cmd w of
        (Inl err, w') \<Rightarrow> (Inl err, w')
      | (Inr (chunks, out, err), w') \<Rightarrow> (Inr (out, err), w'))"

definition uploadFile ::
  "env \<Rightarrow> string \<Rightarrow> string \<Rightarrow> string \<Rightarrow> world \<Rightarrow> (string + unit) \<times> world" where
  "uploadFile E connectionId localPath remotePath w =
     (case connections w connectionId of
        None \<Rightarrow> (Inl (no_connection connectionId), w)
      | Some connection \<Rightarrow>
          (case sftp_open E (tick w) connectionId of
             Some err \<Rightarrow> (Inl err, w\<lparr>tick := Suc (tick w)\<rparr>)
           | None \<Rightarrow>
               (case fastPut E (tick w) connectionId localPath remotePath of
                  Some putErr \<Rightarrow> (Inl putErr, w\<lparr>tick := Suc (tick w)\<rparr>)
                | None \<Rightarrow> (Inr (), w\<lparr>tick := Suc (tick w)\<rparr>))))"

definition downloadFile ::
  "env \<Rightarrow> string \<Rightarrow> string \<Rightarrow> string \<Rightarrow> world \<Rightarrow> (string + unit) \<times> world" where
  "downloadFile E connectionId remotePath localPath w =
     (case connections w connectionId of
        None \<Rightarrow> (Inl (no_connection connectionId), w)
      | Some connection \<Rightarrow>
          (case sftp_open E (tick w) connectionId of
             Some err \<Rightarrow> (Inl err, w\<lparr>tick := Suc (tick w)\<rparr>)
           | None \<Rightarrow>
               (case fastGet E (tick w) connectionId remotePath localPath of
                  Some getErr \<Rightarrow> (Inl getErr, w\<lparr>tick := Suc (tick w)\<rparr>)
                | None \<Rightarrow> (Inr (), w\<lparr>tick := Suc (tick w)\<rparr>))))"

subsection \<open>Directory listing\<close>

text \<open>
  The comparison function of the sort: directories first, then \<open>localeCompare\<close> on the
  names. \<open>Array.prototype.sort\<close> is stable; it is modelled as the stable insertion sort,
  the order every stable sort gives under a consistent comparison.
\<close>

definition to_item :: "dir_entry \<Rightarrow> list_item" where
  "to_item item =
     \<lparr>li_name = filename item,
      li_type = (if isDirectory item then Directory_entry else File_entry),
      li_size = attr_size item,
      li_modifyTime = attr_mtime item\<rparr>"

definition compare_items :: "(string \<Rightarrow> string \<Rightarrow> int) \<Rightarrow> list_item \<Rightarrow> list_item \<Rightarrow> int" where
  "compare_items lc a b =
     (if li_type a \<noteq> li_type b then (if li_type a = Directory_entry then - 1 else 1)
      else lc (li_name a) (li_name b))"

fun insert_sorted :: "('a \<Rightarrow> 'a \<Rightarrow> int) \<Rightarrow> 'a \<Rightarrow> 'a list \<Rightarrow> 'a list" where
  "insert_sorted cmp x [] = [x]"
| "insert_sorted cmp x (y # ys) =
     (if cmp x y \<le> 0 then x # y # ys else y # insert_sorted cmp x ys)"

fun js_sort :: "('a \<Rightarrow> 'a \<Rightarrow> int) \<Rightarrow> 'a list \<Rightarrow> 'a list" where
  "js_sort cmp [] = []"
| "js_sort cmp (x # xs) = insert_sorted cmp x (js_sort cmp xs)"

definition allItems :: "(string \<Rightarrow> string \<Rightarrow> int) \<Rightarrow> dir_entry list \<Rightarrow> list_item list" where
  "allItems lc list =
     js_sort (compare_items lc)
       (map to_item (filter (\<lambda>item. \<not> startsWith (filename item) ''.'') list))"

text \<open>
  The options: \<open>options?.limit || 50\<close> and \<open>options?.offset || 0\<close>, where a missing
  field and the number \<open>0\<close> both take the default.
\<close>

record list_options =
  opt_limit :: "int option"
  opt_offset :: "int option"

definition effective_limit :: "list_options option \<Rightarrow> int" where
  "effective_limit options =
     (case options of
        None \<Rightarrow> 50
      | Some opts \<Rightarrow> (case opt_limit opts of None \<Rightarrow> 50 | Some l \<Rightarrow> if l = 0 then 50 else l))"

definition effective_offset :: "list_options option \<Rightarrow> int" where
  "effective_offset options =
     (case options of
        None \<Rightarrow> 0
      | Some opts \<Rightarrow> (case opt_offset opts of None \<Rightarrow> 0 | Some off \<Rightarrow> off))"

record listing =
  listed_items :: "list_item list"
  total :: nat
  hasMore :: bool

definition paginate ::
  "(string \<Rightarrow> string \<Rightarrow> int) \<Rightarrow> dir_entry list \<Rightarrow> list_options option \<Rightarrow> listing" where
  "paginate lc list options =
     (let limit = effective_limit options;
          offset = effective_offset options;
          sorted_items = allItems lc list
      in \<lparr>listed_items = js_slice sorted_items offset (offset + limit),
          total = length sorted_items,
          hasMore = (offset + limit < int (length sorted_items))\<rparr>)"

definition listDirectory ::
  "env \<Rightarrow> string \<Rightarrow> string \<Rightarrow> list_options option \<Rightarrow> world \<Rightarrow> (string + listing) \<times> world" where
  "listDirectory E connectionId dirPath options w =
     (case connections w connectionId of
        None \<Rightarrow> (Inl (no_connection connectionId), w)
      | Some connection \<Rightarrow>
          (case sftp_open E (tick w) connectionId of
             Some err \<Rightarrow> (Inl err, w\<lparr>tick := Suc (tick w)\<rparr>)
           | None \<Rightarrow>
               (case readdir E (tick w) connectionId dirPath of
                  Inl listErr \<Rightarrow> (Inl listErr, w\<lparr>tick := Suc (tick w)\<rparr>)
                | Inr list \<Rightarrow>
                    (Inr (paginate (localeCompare E) list options), w\<lparr>tick := Suc (tick w)\<rparr>))))"

section \<open>RcloneService\<close>

text \<open>
  Every method of \<open>RcloneService\<close> catches what its commands throw and resolves to
  \<open>{success, error}\<close> (or \<open>{installed}\<close>); none of them rejects. The version text of
  \<open>checkInstalled\<close> is only logged and is left out.
\<close>

definition checkInstalled :: "env \<Rightarrow> string \<Rightarrow> world \<Rightarrow> bool \<times> world" where
  "checkInstalled E connectionId w =
     (case exec E connectionId Rclone_version w of
        (Inl err, w') \<Rightarrow> (False, w')
      | (Inr (out, err), w') \<Rightarrow> (out \<noteq> [], w'))"

definition install :: "env \<Rightarrow> string \<Rightarrow> world \<Rightarrow> (bool \<times> string option) \<times> world" where
  "install E connectionId w =
     (case exec E connectionId Install_script w of
        (Inl message, w1) \<Rightarrow> ((False, Some message), w1)
      | (Inr (out, err), w1) \<Rightarrow>
          (case (if err \<noteq> [] \<and> includes_str err ''error''
                 then (case exec E connectionId Install_user w1 of
                         (Inl message, w2) \<Rightarrow> (Inl message, w2)
                       | (Inr r, w2) \<Rightarrow>
                           (case exec E connectionId Add_path w2 of
                              (Inl message, w3) \<Rightarrow> (Inl message, w3)
                            | (Inr r', w3) \<Rightarrow> (Inr (), w3)))
                 else (Inr (), w1)) of
             (Inl message, w4) \<Rightarrow> ((False, Some message), w4)
           | (Inr u, w4) \<Rightarrow>
               (case checkInstalled E connectionId w4 of
                  (True, w5) \<Rightarrow> ((True, None), w5)
                | (False, w5) \<Rightarrow> ((False, Some ''Installation verification failed''), w5))))"

definition copyConfigToServer ::
  "env \<Rightarrow> string \<Rightarrow> world \<Rightarrow> (bool \<times> string option) \<times> world" where
  "copyConfigToServer E connectionId w =
     (case localConfig E of
        None \<Rightarrow>
          ((False, Some ''Local rclone config not found. Please configure rclone first.''), w)
      | Some configContent \<Rightarrow>
          (case exec E connectionId Mkdir_config w of
             (Inl message, w1) \<Rightarrow> ((False, Some message), w1)
           | (Inr r, w1) \<Rightarrow>
               (case exec E connectionId (Write_config configContent) w1 of
                  (Inl message, w2) \<Rightarrow> ((False, Some message), w2)
                | (Inr r', w2) \<Rightarrow> ((True, None), w2))))"

text \<open>
  The first match of \<open>/(\d+)%/\<close> in a chunk: the first maximal run of digits that a
  percent sign follows; the result is the run.
\<close>

function percentMatch :: "string \<Rightarrow> string option" where
  "percentMatch s =
     (let t = dropWhile (\<lambda>c. \<not> is_digit c) s
      in if t = [] then None
         else (case dropWhile is_digit t of
                 [] \<Rightarrow> None
               | c # r \<Rightarrow> if c = CHR ''%'' then Some (takeWhile is_digit t) else percentMatch (c # r)))"
  by pat_completeness auto
termination
proof (relation "measure length", goal_cases)
  case 1
  show ?case by simp
next
  case (2 s t c r)
  from 2(2) have "t \<noteq> []" by simp
  then obtain d t' where t: "t = d # t'" by (cases t) auto
  have "is_digit d"
    using 2(1) t dropWhile_eq_Cons_conv [of "\<lambda>c. \<not> is_digit c" s d t'] by auto
  then have "length (dropWhile is_digit t) \<le> length t'"
    using t by (simp add: length_dropWhile_le)
  moreover have "length t \<le> length s"
    using 2(1) by (simp add: length_dropWhile_le)
  ultimately show ?case
    using 2(3) t by simp
qed

declare percentMatch.simps [simp del]

text \<open>
  The calls of \<open>onProgress(percent, speed)\<close> that the chunks of an rclone run cause: one
  for each chunk with a percentage, with the speed text or the empty string.
\<close>

definition progress_reports :: "env \<Rightarrow> (stream \<times> string) list \<Rightarrow> (nat \<times> string) list" where
  "progress_reports E chunks =
     List.map_filter
       (\<lambda>chunk. case percentMatch (snd chunk) of
                   None \<Rightarrow> None
                 | Some ds \<Rightarrow>
                     Some (digits_val ds,
                           case speedMatch E (snd chunk) of None \<Rightarrow> [] | Some sp \<Rightarrow> sp))
       chunks"

definition upload ::
  "env \<Rightarrow> string \<Rightarrow> string \<Rightarrow> string \<Rightarrow> string \<Rightarrow> world
    \<Rightarrow> ((bool \<times> string option) \<times> (nat \<times> string) list) \<times> world" where
  "upload E connectionId src remoteName remotePath w =
     (case execWithProgress E connectionId
             (Rclone_copyto src (remoteName @ '':'' @ remotePath)) w of
        (Inl message, w') \<Rightarrow> (((False, Some message), []), w')
      | (Inr (chunks, out, err), w') \<Rightarrow> (((True, None), progress_reports E chunks), w'))"

definition download ::
  "env \<Rightarrow> string \<Rightarrow> string \<Rightarrow> string \<Rightarrow> string \<Rightarrow> world
    \<Rightarrow> ((bool \<times> string option) \<times> (nat \<times> string) list) \<times> world" where
  "download E connectionId remoteName remotePath destPath w =
     (case execWithProgress E connectionId
             (Rclone_copyto (remoteName @ '':'' @ remotePath) destPath) w of
        (Inl message, w') \<Rightarrow> (((False, Some message), []), w')
      | (Inr (chunks, out, err), w') \<Rightarrow> (((True, None), progress_reports E chunks), w'))"

definition delete ::
  "env \<Rightarrow> string \<Rightarrow> string \<Rightarrow> string \<Rightarrow> world \<Rightarrow> (bool \<times> string option) \<times> world" where
  "delete E connectionId remoteName remotePath w =
     (case exec E connectionId (Rclone_deletefile (remoteName @ '':'' @ remotePath)) w of
        (Inl message, w') \<Rightarrow> ((False, Some message), w')
      | (Inr (out, err), w') \<Rightarrow>
          (if err \<noteq> [] \<and> includes_str err ''error'' then ((False, Some err), w')
           else ((True, None), w')))"

section \<open>ConfigService\<close>

definition getServerById :: "world \<Rightarrow> string \<Rightarrow> ssh_config option" where
  "getServerById w sid = find (\<lambda>s. cfg_id s = sid) (servers w)"

definition getJobById :: "world \<Rightarrow> string \<Rightarrow> transfer_job option" where
  "getJobById w jid = find (\<lambda>j. job_id j = jid) (jobs w)"

text \<open>The first element that satisfies \<open>P\<close> is replaced by its image under \<open>f\<close>.\<close>

fun update_first :: "('a \<Rightarrow> bool) \<Rightarrow> ('a \<Rightarrow> 'a) \<Rightarrow> 'a list \<Rightarrow> 'a list" where
  "update_first P f [] = []"
| "update_first P f (x # xs) = (if P x then f x # xs else x # update_first P f xs)"

definition saveJob :: "transfer_job \<Rightarrow> world \<Rightarrow> world" where
  "saveJob job w =
     (if find (\<lambda>j. job_id j = job_id job) (jobs w) \<noteq> None
      then w\<lparr>jobs := update_first (\<lambda>j. job_id j = job_id job) (\<lambda>j. job) (jobs w)\<rparr>
      else w\<lparr>jobs := jobs w @ [job]\<rparr>)"

section \<open>Transfer service: splitting the source files into batches\<close>

text \<open>
  The split path of \<open>TransferService.processItem\<close> lists the regular files of the source
  folder with their sizes and groups them, in listing order, into batches that one archive
  part each is made of. A listed file is the object \<open>{size, path, relativePath}\<close>; its
  size is the integer \<open>parseInt(...) || 0\<close> read from the listing, and the limit is the
  number \<open>limitMB * 1024 * 1024\<close>. Sizes and the limit are modelled as unbounded integers
  (the JavaScript numbers are exact on integers below \<open>2 ^ 53\<close>).
\<close>

record source_file =
  file_size :: int
  file_path :: string
  relativePath :: string

text \<open>
  The loop \<open>for (const file of files)\<close> with its three variables \<open>batches\<close>,
  \<open>currentBatch\<close> and \<open>currentBatchSize\<close>; \<open>push\<close> appends at the end. The
  \<open>continue\<close> of the oversized-file branch is the first branch of the conditional.
\<close>

fun batch_loop ::
  "int \<Rightarrow> source_file list \<Rightarrow> source_file list list \<Rightarrow> source_file list \<Rightarrow> int
    \<Rightarrow> source_file list list \<times> source_file list \<times> int" where
  "batch_loop limitBytes [] batches currentBatch currentBatchSize =
     (batches, currentBatch, currentBatchSize)"
| "batch_loop limitBytes (file # files) batches currentBatch currentBatchSize =
     (if file_size file > limitBytes then
        (if length currentBatch > 0
         then batch_loop limitBytes files ((batches @ [currentBatch]) @ [[file]]) [] 0
         else batch_loop limitBytes files (batches @ [[file]]) currentBatch currentBatchSize)
      else if currentBatchSize + file_size file > limitBytes \<and> length currentBatch > 0
      then batch_loop limitBytes files (batches @ [currentBatch]) [file] (0 + file_size file)
      else batch_loop limitBytes files batches (currentBatch @ [file])
             (currentBatchSize + file_size file))"

text \<open>The whole grouping: the loop from the empty state, then the last batch if any.\<close>

definition group_batches :: "int \<Rightarrow> source_file list \<Rightarrow> source_file list list" where
  "group_batches limitBytes files =
     (case batch_loop limitBytes files [] [] 0 of
        (batches, currentBatch, currentBatchSize) \<Rightarrow>
          if length currentBatch > 0 then batches @ [currentBatch] else batches)"

definition batch_size :: "source_file list \<Rightarrow> int" where
  "batch_size b = sum_list (map file_size b)"

definition batch_ok :: "int \<Rightarrow> source_file list \<Rightarrow> bool" where
  "batch_ok limitBytes b = (batch_size b \<le> limitBytes \<or> length b = 1)"

section \<open>TransferService\<close>

subsection \<open>Messages to the user interface\<close>

definition broadcastProgress :: "string \<Rightarrow> string \<Rightarrow> int \<Rightarrow> item_status \<Rightarrow> world \<Rightarrow> world" where
  "broadcastProgress jobId itemId p st w =
     w\<lparr>broadcasts := broadcasts w @ [Transfer_progress jobId itemId p st]\<rparr>"

text \<open>\<open>this.uploadedFiles.get(jobId) || []\<close>\<close>

definition job_files :: "world \<Rightarrow> string \<Rightarrow> uploaded_file_info list" where
  "job_files w jobId = (case uploadedFiles w jobId of None \<Rightarrow> [] | Some files \<Rightarrow> files)"

definition broadcastFileUploaded :: "string \<Rightarrow> uploaded_file_info \<Rightarrow> world \<Rightarrow> world" where
  "broadcastFileUploaded jobId fileInfo w =
     (let files = job_files w jobId;
          files' =
            (if find (\<lambda>f. file_id f = file_id fileInfo) files \<noteq> None
             then update_first (\<lambda>f. file_id f = file_id fileInfo) (\<lambda>f. fileInfo) files
             else files @ [fileInfo])
      in w\<lparr>uploadedFiles := (uploadedFiles w)(jobId \<mapsto> files'),
           broadcasts := broadcasts w @ [File_uploaded jobId fileInfo]\<rparr>)"

text \<open>
  The slot of one destination in one uploaded file: \<open>destinations.find\<close> takes the first
  record of that server; \<open>if (error) destProgress.error = error\<close> keeps the old error
  when none, or the empty string, is passed.
\<close>

definition set_destination ::
  "string \<Rightarrow> dest_status \<Rightarrow> int \<Rightarrow> string option \<Rightarrow> uploaded_file_info \<Rightarrow> uploaded_file_info" where
  "set_destination sid st p err fileInfo =
     fileInfo\<lparr>destinations :=
       update_first (\<lambda>d. serverId d = sid)
         (\<lambda>d. d\<lparr>dest_status := st, dest_progress := p,
                dest_error := (case err of
                                 None \<Rightarrow> dest_error d
                               | Some e \<Rightarrow> if e = [] then dest_error d else Some e)\<rparr>)
         (destinations fileInfo)\<rparr>"

definition broadcastFileDestinationProgress ::
  "string \<Rightarrow> string \<Rightarrow> string \<Rightarrow> dest_status \<Rightarrow> int \<Rightarrow> string option \<Rightarrow> world \<Rightarrow> world" where
  "broadcastFileDestinationProgress jobId fileId sid st p err w =
     (case find (\<lambda>f. file_id f = fileId) (job_files w jobId) of
        None \<Rightarrow> w
      | Some fileInfo \<Rightarrow>
          w\<lparr>uploadedFiles := (uploadedFiles w)(jobId \<mapsto>
               update_first (\<lambda>f. file_id f = fileId) (set_destination sid st p err)
                 (job_files w jobId)),
            broadcasts := broadcasts w @ [File_progress jobId (set_destination sid st p err fileInfo)]\<rparr>)"

subsection \<open>Preparing the source: \<open>prepareSourceFiles\<close>\<close>

text \<open>
  The folder size is \<open>parseInt(stdout, 10) || 0\<close> of \<open>du -sb | cut -f1\<close>; the limit is
  \<open>zipSizeLimitMB * 1024 * 1024\<close>. Both branches make one item of the same name: in the
  split case it is the placeholder under which the parts are uploaded later.
\<close>

definition new_item :: "env \<Rightarrow> nat \<Rightarrow> transfer_job \<Rightarrow> string \<Rightarrow> string \<Rightarrow> transfer_item" where
  "new_item E t job baseName basePath =
     \<lparr>item_id = ''item_'' @ string_of_nat (dateNow E t) @ ''_'' @ randomId E t,
      fileName = baseName @ ''.zip'',
      sourcePath = basePath,
      drivePath = driveFolder job @ ''/'' @ baseName @ ''.zip'',
      destinationPath = destinationFolder job,
      status = Pending,
      progress = 0,
      speed = None,
      error = None,
      createdAt = isoNow E t,
      completedAt = None,
      retryCount = 0\<rparr>"

definition prepareSourceFiles ::
  "env \<Rightarrow> transfer_job \<Rightarrow> string \<Rightarrow> world
    \<Rightarrow> (string + transfer_job \<times> transfer_item list) \<times> world" where
  "prepareSourceFiles E job connectionId w =
     (case exec E connectionId (Du (sourceFolder job)) w of
        (Inl err, w') \<Rightarrow> (Inl err, w')
      | (Inr (out, err), w') \<Rightarrow>
          (let totalBytes = or_zero (parseInt out);
               limitBytes = zipSizeLimitMB job * 1024 * 1024;
               timestamp = dateNow E (tick w');
               baseZipName = ''transfer_'' @ string_of_nat timestamp;
               baseZipPath = ''/tmp/'' @ baseZipName @ ''.zip'';
               job' = job\<lparr>zipInfo := Some
                 \<lparr>needsSplit = (totalBytes > limitBytes),
                  limitMB = zipSizeLimitMB job,
                  baseZipName = baseZipName,
                  baseZipPath = baseZipPath,
                  totalBytes = totalBytes,
                  actualParts = None\<rparr>\<rparr>
           in if totalBytes \<le> limitBytes
              then (Inr (job', [new_item E (tick w') job baseZipName baseZipPath]), w')
              else (Inr (job', [new_item E (tick w') job baseZipName baseZipPath]), w')))"

subsection \<open>Packaging and upload: \<open>processItem\<close>\<close>

text \<open>
  \<open>processItem(job, item)\<close> changes the item, which is an element of \<open>job.items\<close>, the
  job's \<open>_zipInfo\<close>, and the world. The model runs on the pair of the job and the world
  and names the item by its position \<open>k\<close> in \<open>job.items\<close>. A step is a function from this
  state to a result (\<open>Inl\<close> the message of what was thrown) and the next state.
\<close>

type_synonym pstate = "transfer_job \<times> world"

definition bindE ::
  "('s \<Rightarrow> (string + 'a) \<times> 's) \<Rightarrow> ('a \<Rightarrow> 's \<Rightarrow> (string + 'b) \<times> 's) \<Rightarrow> 's \<Rightarrow> (string + 'b) \<times> 's" where
  "bindE m f s = (case m s of (Inl e, s') \<Rightarrow> (Inl e, s') | (Inr x, s') \<Rightarrow> f x s')"

definition in_world :: "(world \<Rightarrow> 'a \<times> world) \<Rightarrow> pstate \<Rightarrow> 'a \<times> pstate" where
  "in_world m s = (case m (snd s) of (r, w') \<Rightarrow> (r, (fst s, w')))"

definition update_world :: "(world \<Rightarrow> world) \<Rightarrow> pstate \<Rightarrow> pstate" where
  "update_world f s = (fst s, f (snd s))"

definition the_item :: "nat \<Rightarrow> pstate \<Rightarrow> transfer_item" where
  "the_item k s = items (fst s) ! k"

definition update_item :: "nat \<Rightarrow> (transfer_item \<Rightarrow> transfer_item) \<Rightarrow> pstate \<Rightarrow> pstate" where
  "update_item k f s = ((fst s)\<lparr>items := (items (fst s))[k := f (items (fst s) ! k)]\<rparr>, snd s)"

text \<open>\<open>this.broadcastProgress(job.id, item.id, p, st)\<close>\<close>

definition item_progress :: "nat \<Rightarrow> int \<Rightarrow> item_status \<Rightarrow> pstate \<Rightarrow> pstate" where
  "item_progress k p st s =
     update_world (broadcastProgress (job_id (fst s)) (item_id (the_item k s)) p st) s"

text \<open>The listing of \<open>find ... -exec stat --printf='%s %n\n'\<close>, read line by line.\<close>

definition parse_line :: "string \<Rightarrow> string \<Rightarrow> source_file option" where
  "parse_line folder line =
     (case indexOf (CHR '' '') line of
        None \<Rightarrow> None
      | Some spaceIndex \<Rightarrow>
          if spaceIndex > 0
          then Some \<lparr>file_size = or_zero (parseInt (take spaceIndex line)),
                     file_path = drop (spaceIndex + 1) line,
                     relativePath =
                       strip_leading_slash (remove_first folder (drop (spaceIndex + 1) line))\<rparr>
          else None)"

definition parse_files :: "string \<Rightarrow> string \<Rightarrow> source_file list" where
  "parse_files folder out =
     List.map_filter (parse_line folder)
       (filter (\<lambda>l. trim l \<noteq> []) (split_on (CHR 0x0A) out))"

text \<open>
  The names of a part: \<open>String(i + 1).padStart(3, '0')\<close> and the file name, which is the
  plain name when there is exactly one batch.
\<close>

definition partNum :: "nat \<Rightarrow> string" where
  "partNum i = padStart 3 (CHR ''0'') (string_of_nat (i + 1))"

definition partFileName :: "nat \<Rightarrow> nat \<Rightarrow> string \<Rightarrow> string" where
  "partFileName n i baseName =
     (if n = 1 then baseName @ ''.zip'' else baseName @ ''.part'' @ partNum i @ ''.zip'')"

text \<open>
  The job-level percentage of the upload callback,
  \<open>Math.round(((i + percent / 100) / batches.length) * 100)\<close>, in the arithmetic of
  doubles. The callback runs inside the loop over the batches, so \<open>batches.length\<close> is not
  \<open>0\<close> there.
\<close>

definition overallPercent :: "nat \<Rightarrow> nat \<Rightarrow> nat \<Rightarrow> int" where
  "overallPercent i percent n =
     js_round (js_mul (js_div (js_add (of_nat i) (js_div (of_nat percent) 100)) (of_nat n)) 100)"

definition upload_callback :: "nat \<Rightarrow> nat \<Rightarrow> nat \<Rightarrow> pstate \<Rightarrow> nat \<times> string \<Rightarrow> pstate" where
  "upload_callback k i n s report =
     item_progress k (overallPercent i (fst report) n) Uploading
       (update_item k
          (\<lambda>it. it\<lparr>progress := overallPercent i (fst report) n, speed := Some (snd report)\<rparr>) s)"

text \<open>\<open>try { zipSize = parseInt((await exec(stat)).stdout, 10) || 0 } catch { }\<close>\<close>

definition stat_size :: "env \<Rightarrow> string \<Rightarrow> string \<Rightarrow> pstate \<Rightarrow> int \<times> pstate" where
  "stat_size E sid target s =
     (case in_world (exec E sid (Stat_size target)) s of
        (Inl err, s') \<Rightarrow> (0, s')
      | (Inr (out, err), s') \<Rightarrow> (or_zero (parseInt out), s'))"

text \<open>The fresh list of destination records of an uploaded file, all pending at 0.\<close>

definition pending_destinations :: "world \<Rightarrow> transfer_job \<Rightarrow> file_destination_progress list" where
  "pending_destinations w job =
     map (\<lambda>destId.
            \<lparr>serverId = destId,
             serverName = (case getServerById w destId of
                             None \<Rightarrow> ''Unknown''
                           | Some s \<Rightarrow> if cfg_name s = [] then ''Unknown'' else cfg_name s),
             dest_status = Dest_pending,
             dest_progress = 0,
             dest_error = None\<rparr>)
       (destinationServerIds job)"

text \<open>
  One pass of the loop over the batches: write the file list, zip, remove the list, read
  the size, upload with the progress callback, announce the uploaded part, and remove the
  part from the source if configured. The percentage sent before the upload is
  \<open>Math.round((i / batches.length) * 100)\<close>.
\<close>

definition publish_part ::
  "env \<Rightarrow> string \<Rightarrow> nat \<Rightarrow> nat \<Rightarrow> string \<Rightarrow> nat \<Rightarrow> int \<Rightarrow> pstate \<Rightarrow> (string + unit) \<times> pstate" where
  "publish_part E sid k n baseName i zipSize s =
     (let partFile = partFileName n i baseName;
          partPath = ''/tmp/'' @ partFile;
          part_drivePath = driveFolder (fst s) @ ''/'' @ partFile;
          s1 = item_progress k (js_round (js_mul (js_div (of_nat i) (of_nat n)) 100)) Uploading
                 (update_item k (\<lambda>it. it\<lparr>status := Uploading\<rparr>) s)
      in case in_world (upload E sid partPath ''gdrive'' part_drivePath) s1 of
           ((result, reports), s2) \<Rightarrow>
             (let s3 = foldl (upload_callback k i n) s2 reports;
                  fileInfo =
                    \<lparr>file_id = item_id (the_item k s3) @ ''_part'' @ partNum i,
                     file_fileName = partFile,
                     file_drivePath = part_drivePath,
                     uploadedAt = isoNow E (tick (snd s3)),
                     file_size_text = formatBytes E zipSize,
                     destinations = pending_destinations (snd s3) (fst s3)\<rparr>;
                  s4 = update_world (broadcastFileUploaded (job_id (fst s3)) fileInfo) s3
              in if deleteAfterUpload (fst s4)
                 then bindE (in_world (exec E sid (Rm_f partPath))) (\<lambda>r s'. (Inr (), s')) s4
                 else (Inr (), s4)))"

definition process_part ::
  "env \<Rightarrow> string \<Rightarrow> nat \<Rightarrow> nat \<Rightarrow> string \<Rightarrow> nat \<Rightarrow> source_file list \<Rightarrow> pstate
    \<Rightarrow> (string + unit) \<times> pstate" where
  "process_part E sid k n baseName i batch s =
     (let partPath = ''/tmp/'' @ partFileName n i baseName;
          fileListPath = ''/tmp/'' @ baseName @ ''_batch'' @ partNum i @ ''.txt'';
          fileListContent = join newline (map relativePath batch)
      in bindE (in_world (exec E sid (Write_filelist fileListPath fileListContent))) (\<lambda>r1.
         bindE (in_world (execWithProgress E sid
                  (Zip_batch (sourceFolder (fst s)) partPath fileListPath))) (\<lambda>r2.
         bindE (in_world (exec E sid (Rm_f fileListPath))) (\<lambda>r3 s'.
           case stat_size E sid partPath s' of
             (zipSize, s'') \<Rightarrow> publish_part E sid k n baseName i zipSize s''))) s)"

fun process_parts ::
  "env \<Rightarrow> string \<Rightarrow> nat \<Rightarrow> nat \<Rightarrow> string \<Rightarrow> nat \<Rightarrow> source_file list list \<Rightarrow> pstate
    \<Rightarrow> (string + unit) \<times> pstate" where
  "process_parts E sid k n baseName i [] s = (Inr (), s)"
| "process_parts E sid k n baseName i (batch # rest) s =
     (case process_part E sid k n baseName i batch s of
        (Inl e, s') \<Rightarrow> (Inl e, s')
      | (Inr u, s') \<Rightarrow> process_parts E sid k n baseName (Suc i) rest s')"

definition set_actualParts :: "nat \<Rightarrow> pstate \<Rightarrow> pstate" where
  "set_actualParts n s =
     ((fst s)\<lparr>zipInfo := (case zipInfo (fst s) of
                             None \<Rightarrow> None
                           | Some zi \<Rightarrow> Some (zi\<lparr>actualParts := Some n\<rparr>))\<rparr>, snd s)"

definition process_split ::
  "env \<Rightarrow> string \<Rightarrow> nat \<Rightarrow> zip_info \<Rightarrow> int \<Rightarrow> pstate \<Rightarrow> (string + unit) \<times> pstate" where
  "process_split E sid k zi limitBytes s =
     bindE (in_world (exec E sid (Find_files (sourceFolder (fst s))))) (\<lambda>filesResult s'.
       let batches = group_batches limitBytes (parse_files (sourceFolder (fst s')) (fst filesResult))
       in process_parts E sid k (length batches) (baseZipName zi) 0 batches
            (set_actualParts (length batches) s')) s"

definition single_callback :: "nat \<Rightarrow> pstate \<Rightarrow> nat \<times> string \<Rightarrow> pstate" where
  "single_callback k s report =
     item_progress k (int (fst report)) Uploading
       (update_item k (\<lambda>it. it\<lparr>progress := int (fst report), speed := Some (snd report)\<rparr>) s)"

definition process_single :: "env \<Rightarrow> string \<Rightarrow> nat \<Rightarrow> pstate \<Rightarrow> (string + unit) \<times> pstate" where
  "process_single E sid k s =
     bindE (in_world (execWithProgress E sid
              (Zip_all (sourceFolder (fst s)) (sourcePath (the_item k s))))) (\<lambda>r s'.
       case stat_size E sid (sourcePath (the_item k s')) s' of
         (zipSize, s1) \<Rightarrow>
           (let s2 = item_progress k 0 Uploading
                       (update_item k (\<lambda>it. it\<lparr>status := Uploading, progress := 0\<rparr>) s1)
            in case in_world (upload E sid (sourcePath (the_item k s2)) ''gdrive''
                                (drivePath (the_item k s2))) s2 of
                 ((result, reports), s3) \<Rightarrow>
                   (let s4 = foldl (single_callback k) s3 reports;
                        fileInfo =
                          \<lparr>file_id = item_id (the_item k s4),
                           file_fileName = fileName (the_item k s4),
                           file_drivePath = drivePath (the_item k s4),
                           uploadedAt = isoNow E (tick (snd s4)),
                           file_size_text = formatBytes E zipSize,
                           destinations = pending_destinations (snd s4) (fst s4)\<rparr>;
                        s5 = update_world (broadcastFileUploaded (job_id (fst s4)) fileInfo) s4
                    in if deleteAfterUpload (fst s5)
                       then bindE (in_world (exec E sid (Rm_f (sourcePath (the_item k s5)))))
                              (\<lambda>r' s''. (Inr (), s'')) s5
                       else (Inr (), s5)))) s"

text \<open>
  The branch \<open>if (needsSplit) { ... } else { ... }\<close>, with
  \<open>needsSplit = zipInfo?.needsSplit || false\<close>.
\<close>

definition package_and_upload ::
  "env \<Rightarrow> string \<Rightarrow> nat \<Rightarrow> zip_info option \<Rightarrow> int \<Rightarrow> pstate \<Rightarrow> (string + unit) \<times> pstate" where
  "package_and_upload E sid k zinfo limitBytes s =
     (case zinfo of
        None \<Rightarrow> process_single E sid k s
      | Some zi \<Rightarrow>
          if needsSplit zi then process_split E sid k zi limitBytes s
          else process_single E sid k s)"

text \<open>
  \<open>processItem\<close>: nothing happens when the source server is unknown. Otherwise the item
  is marked \<open>zipping\<close>, the split or the single path runs, and the item ends \<open>uploaded\<close>
  with the job saved, or, when a step threw, \<open>failed\<close> with the message. The limit is
  \<open>(zipInfo?.limitMB || job.zipSizeLimitMB) * 1024 * 1024\<close>.
\<close>

definition processItem :: "env \<Rightarrow> nat \<Rightarrow> pstate \<Rightarrow> pstate" where
  "processItem E k s =
     (case getServerById (snd s) (sourceServerId (fst s)) of
        None \<Rightarrow> s
      | Some sourceServer \<Rightarrow>
          (let limit = (case zipInfo (fst s) of
                          None \<Rightarrow> zipSizeLimitMB (fst s)
                        | Some zi \<Rightarrow> if limitMB zi = 0 then zipSizeLimitMB (fst s) else limitMB zi);
               limitBytes = limit * 1024 * 1024
           in case package_and_upload E (cfg_id sourceServer) k (zipInfo (fst s)) limitBytes
                     (item_progress k 0 Zipping
                        (update_item k (\<lambda>it. it\<lparr>status := Zipping\<rparr>) s)) of
                (Inr u, s2) \<Rightarrow>
                  (let s3 = item_progress k 100 Uploaded
                              (update_item k (\<lambda>it. it\<lparr>status := Uploaded, progress := 100\<rparr>) s2)
                   in update_world (saveJob (fst s3)) s3)
              | (Inl message, s2) \<Rightarrow>
                  (let s3 = update_item k (\<lambda>it. it\<lparr>status := Failed, error := Some message\<rparr>) s2
                   in item_progress k (progress (the_item k s3)) Failed s3)))"

subsection \<open>Retry\<close>

fun findIndex :: "('a \<Rightarrow> bool) \<Rightarrow> 'a list \<Rightarrow> nat option" where
  "findIndex P [] = None"
| "findIndex P (x # xs) =
     (if P x then Some 0 else (case findIndex P xs of None \<Rightarrow> None | Some i \<Rightarrow> Some (Suc i)))"

text \<open>
  \<open>retryItem\<close> reads the job from the store and returns early when the job or the item
  is missing or the item is not \<open>failed\<close>; the result \<open>None\<close> is the early return.
  Otherwise it resets the item and runs \<open>processItem\<close> on it; the job object it worked
  on is returned with the world.
\<close>

definition reset_item :: "transfer_item \<Rightarrow> transfer_item" where
  "reset_item it = it\<lparr>status := Pending, error := None, retryCount := retryCount it + 1\<rparr>"

definition retryItem :: "env \<Rightarrow> string \<Rightarrow> string \<Rightarrow> world \<Rightarrow> transfer_job option \<times> world" where
  "retryItem E jobId itemId w =
     (case getJobById w jobId of
        None \<Rightarrow> (None, w)
      | Some job \<Rightarrow>
          (case findIndex (\<lambda>i. item_id i = itemId) (items job) of
             None \<Rightarrow> (None, w)
           | Some k \<Rightarrow>
               if status (items job ! k) \<noteq> Failed then (None, w)
               else (case processItem E k (update_item k reset_item (job, w)) of
                       (job', w') \<Rightarrow> (Some job', w'))))"

subsection \<open>Preparing a destination: \<open>prepareDestinationServer\<close>\<close>

text \<open>
  An unknown server is logged and skipped. Otherwise the steps run inside
  \<open>try { ... } catch (error) { log; throw error }\<close>; the result \<open>Inl\<close> is that rethrow.
  The steps are \<open>connect\<close>, \<open>checkInstalled\<close>, \<open>install\<close> and \<open>copyConfigToServer\<close>, whose
  results \<open>{success, error}\<close> the function does not read.
\<close>

definition prepareDestinationServer ::
  "env \<Rightarrow> transfer_job \<Rightarrow> string \<Rightarrow> world \<Rightarrow> (string + unit) \<times> world" where
  "prepareDestinationServer E job destServerId w =
     (case getServerById w destServerId of
        None \<Rightarrow> (Inr (), w)
      | Some destServer \<Rightarrow>
          (case connect E destServer w of
             (dialled, w1) \<Rightarrow>
               (case checkInstalled E (cfg_id destServer) w1 of
                  (installed, w2) \<Rightarrow>
                    (case (if \<not> installed then snd (install E (cfg_id destServer) w2) else w2) of
                       w3 \<Rightarrow>
                         (case copyConfigToServer E (cfg_id destServer) w3 of
                            (deployed, w4) \<Rightarrow> (Inr (), w4))))))"

text \<open>
  \<open>await Promise.all(job.destinationServerIds.map(prepareDestinationServer))\<close> inside the
  \<open>try\<close> of \<open>startJob\<close>: the preparations run one after the other here, in the order of
  the list (they run on different hosts), and the first rejection, if any, is what
  \<open>startJob\<close> catches.
\<close>

fun prepareDestinations ::
  "env \<Rightarrow> transfer_job \<Rightarrow> string list \<Rightarrow> world \<Rightarrow> (string + unit) \<times> world" where
  "prepareDestinations E job [] w = (Inr (), w)"
| "prepareDestinations E job (destId # rest) w =
     (case prepareDestinationServer E job destId w of
        (r, w1) \<Rightarrow>
          (case prepareDestinations E job rest w1 of
             (r', w2) \<Rightarrow> (case r of Inl e \<Rightarrow> (Inl e, w2) | Inr u \<Rightarrow> (r', w2))))"

subsection \<open>One part on one destination: \<open>downloadFileToDestination\<close>\<close>

text \<open>
  The extract decision after the download. A single archive with \<open>autoExtract\<close> is
  unzipped into the destination folder and the staged file removed; otherwise (no
  extraction, or a part of a split archive) the staged file is moved into the destination
  folder.
\<close>

definition stage_part ::
  "env \<Rightarrow> transfer_job \<Rightarrow> uploaded_file_info \<Rightarrow> ssh_config \<Rightarrow> string \<Rightarrow> world
    \<Rightarrow> (string + unit) \<times> world" where
  "stage_part E job file destServer destServerId w =
     (let downloadPath = ''/tmp/'' @ file_fileName file;
          isSplitPart = (case zipInfo job of None \<Rightarrow> False | Some zi \<Rightarrow> needsSplit zi)
      in if autoExtract job \<and> \<not> isSplitPart
         then bindE (exec E (cfg_id destServer) (Unzip_to downloadPath (destinationFolder job)))
                (\<lambda>r. bindE (exec E (cfg_id destServer) (Rm_f downloadPath))
                  (\<lambda>r' w'. (Inr (), w')))
                (broadcastFileDestinationProgress (job_id job) (file_id file) destServerId
                   Dest_extracting 100 None w)
         else bindE (exec E (cfg_id destServer)
                       (Mv downloadPath (destinationFolder job @ ''/'' @ file_fileName file)))
                (\<lambda>r w'. (Inr (), w')) w)"

definition download_callback ::
  "transfer_job \<Rightarrow> uploaded_file_info \<Rightarrow> string \<Rightarrow> world \<Rightarrow> nat \<times> string \<Rightarrow> world" where
  "download_callback job file destServerId w report =
     broadcastFileDestinationProgress (job_id job) (file_id file) destServerId
       Dest_downloading (int (fst report)) None w"

definition downloadFileToDestination ::
  "env \<Rightarrow> transfer_job \<Rightarrow> uploaded_file_info \<Rightarrow> string \<Rightarrow> world \<Rightarrow> world" where
  "downloadFileToDestination E job file destServerId w =
     (case getServerById w destServerId of
        None \<Rightarrow> w
      | Some destServer \<Rightarrow>
          (case download E (cfg_id destServer) ''gdrive'' (file_drivePath file)
                  (''/tmp/'' @ file_fileName file)
                  (broadcastFileDestinationProgress (job_id job) (file_id file) destServerId
                     Dest_downloading 0 None w) of
             ((result, reports), w1) \<Rightarrow>
               (case stage_part E job file destServer destServerId
                       (foldl (download_callback job file destServerId) w1 reports) of
                  (Inl errorMsg, w2) \<Rightarrow>
                    broadcastFileDestinationProgress (job_id job) (file_id file) destServerId
                      Dest_failed 0 (Some errorMsg) w2
                | (Inr u, w2) \<Rightarrow>
                    broadcastFileDestinationProgress (job_id job) (file_id file) destServerId
                      Dest_completed 100 None
                      (if deleteFromDrive job
                       then snd (delete E (cfg_id destServer) ''gdrive'' (file_drivePath file) w2)
                       else w2))))"

subsection \<open>The download worker of \<open>startJob\<close>\<close>

text \<open>
  \<open>await Promise.all(job.destinationServerIds.map(destId => downloadFileToDestination(job,
  file, destId)))\<close>: the tasks of one part run at the same time on different hosts and
  the worker waits for all of them. The model runs them one after the other in the order
  of the list; the commands of one destination keep their order.
\<close>

definition processFile :: "env \<Rightarrow> transfer_job \<Rightarrow> uploaded_file_info \<Rightarrow> world \<Rightarrow> world" where
  "processFile E job file w =
     foldl (\<lambda>w' destId. downloadFileToDestination E job file destId w') w
       (destinationServerIds job)"

text \<open>
  \<open>for (const file of pendingFiles) { ...; processedFiles.add(file.id) }\<close>; the set
  \<open>processedFiles\<close> is a list without repetitions, and its length is the set's size.
\<close>

fun process_pending ::
  "env \<Rightarrow> transfer_job \<Rightarrow> uploaded_file_info list \<Rightarrow> string list \<Rightarrow> world
    \<Rightarrow> string list \<times> world" where
  "process_pending E job [] processedFiles w = (processedFiles, w)"
| "process_pending E job (file # rest) processedFiles w =
     process_pending E job rest (List.insert (file_id file) processedFiles)
       (processFile E job file w)"

text \<open>
  The worker shares the main process with the upload worker and with \<open>cancelJob\<close>. What
  it observes of them at the start of a pass of its \<open>while (true)\<close> loop is a \<open>poll\<close>:
  whether the job is gone or cancelled, whether the upload worker has finished, and the
  file records the upload worker has announced since the previous pass. The list of
  polls is the schedule; the loop that is still running when the list ends has not
  returned (\<open>None\<close>).
\<close>

record poll =
  poll_cancelled :: bool
  poll_uploadComplete :: bool
  poll_uploaded :: "uploaded_file_info list"

fun downloadLoop ::
  "env \<Rightarrow> transfer_job \<Rightarrow> poll list \<Rightarrow> string list \<Rightarrow> world \<Rightarrow> (string list \<times> world) option" where
  "downloadLoop E job [] processedFiles w = None"
| "downloadLoop E job (p # ps) processedFiles w =
     (let w0 = foldl (\<lambda>w' f. broadcastFileUploaded (job_id job) f w') w (poll_uploaded p);
          files = job_files w0 (job_id job)
      in if poll_cancelled p then Some (processedFiles, w0)
         else if poll_uploadComplete p \<and> length processedFiles \<ge> length files \<and> length files > 0
         then Some (processedFiles, w0)
         else (let pendingFiles = filter (\<lambda>f. file_id f \<notin> set processedFiles) files
               in if length pendingFiles = 0 then downloadLoop E job ps processedFiles w0
                  else (case process_pending E job pendingFiles processedFiles w0 of
                          (processedFiles', w1) \<Rightarrow> downloadLoop E job ps processedFiles' w1)))"

text \<open>
  Step 4b, the bulk extraction of a split job on one destination: unzip all parts, then
  remove them; a failure is logged and ends this destination's extraction only.
\<close>

definition bulkExtract :: "env \<Rightarrow> transfer_job \<Rightarrow> zip_info \<Rightarrow> string \<Rightarrow> world \<Rightarrow> world" where
  "bulkExtract E job zi destId w =
     (case getServerById w destId of
        None \<Rightarrow> w
      | Some destServer \<Rightarrow>
          (case exec E (cfg_id destServer) (Bulk_unzip (destinationFolder job) (baseZipName zi)) w of
             (Inl err, w1) \<Rightarrow> w1
           | (Inr r, w1) \<Rightarrow>
               snd (exec E (cfg_id destServer) (Bulk_rm (destinationFolder job) (baseZipName zi)) w1)))"

definition bulkExtractAll :: "env \<Rightarrow> transfer_job \<Rightarrow> world \<Rightarrow> world" where
  "bulkExtractAll E job w =
     (case zipInfo job of
        None \<Rightarrow> w
      | Some zi \<Rightarrow>
          if autoExtract job \<and> needsSplit zi
          then foldl (\<lambda>w' destId. bulkExtract E job zi destId w') w (destinationServerIds job)
          else w)"

text \<open>After the loop and the bulk extraction every item of the job is marked completed.\<close>

definition complete_items :: "env \<Rightarrow> pstate \<Rightarrow> pstate" where
  "complete_items E s =
     ((fst s)\<lparr>items := map (\<lambda>it. it\<lparr>status := Completed,
                                      completedAt := Some (isoNow E (tick (snd s)))\<rparr>)
                         (items (fst s))\<rparr>,
      foldl (\<lambda>w it. broadcastProgress (job_id (fst s)) (item_id it) 100 Completed w) (snd s)
        (items (fst s)))"

definition downloadWorker :: "env \<Rightarrow> poll list \<Rightarrow> pstate \<Rightarrow> pstate option" where
  "downloadWorker E polls s =
     (case downloadLoop E (fst s) polls [] (snd s) of
        None \<Rightarrow> None
      | Some (processedFiles, w1) \<Rightarrow>
          Some (complete_items E (fst s, bulkExtractAll E (fst s) w1)))"

section \<open>Notions used in the statements and proofs\<close>

text \<open>
  A command changes the count of remote operations and the list of started commands,
  nothing else: not the pool, not the file records, not the messages, not the stores.
\<close>

definition rest_of :: "world \<Rightarrow> (string \<rightharpoonup> ssh_config) \<times> broadcast list
    \<times> (string \<rightharpoonup> uploaded_file_info list) \<times> ssh_config list \<times> transfer_job list" where
  "rest_of w = (connections w, broadcasts w, uploadedFiles w, servers w, jobs w)"

text \<open>
  \<open>starts P w w'\<close>: from \<open>w\<close> to \<open>w'\<close> the list of started commands has grown at its end,
  by commands that all satisfy \<open>P\<close>.
\<close>

definition starts :: "(command \<Rightarrow> bool) \<Rightarrow> world \<Rightarrow> world \<Rightarrow> bool" where
  "starts P w w' = (\<exists>cs. commands w' = commands w @ cs \<and> list_all (\<lambda>c. P (snd c)) cs)"

text \<open>The identifiers of the file records of a job, in order.\<close>

definition file_ids :: "world \<Rightarrow> string \<Rightarrow> string list" where
  "file_ids w jobId = map file_id (job_files w jobId)"

text \<open>The two commands of the bulk extraction.\<close>

fun is_bulk :: "command \<Rightarrow> bool" where
  "is_bulk (Bulk_unzip folder base) = True"
| "is_bulk (Bulk_rm folder base) = True"
| "is_bulk c = False"

text \<open>The records of one server in the file records of a job, by file.\<close>

definition slots_of ::
  "world \<Rightarrow> string \<Rightarrow> string \<Rightarrow> (string \<times> file_destination_progress list) list" where
  "slots_of w jobId sid =
     map (\<lambda>f. (file_id f, filter (\<lambda>d. serverId d = sid) (destinations f))) (job_files w jobId)"

text \<open>
  The archive names announced so far: the file names of the \<open>File_uploaded\<close> messages.
\<close>

fun announced_name :: "broadcast \<Rightarrow> string option" where
  "announced_name (File_uploaded j f) = Some (file_fileName f)"
| "announced_name b = None"

definition announced :: "world \<Rightarrow> string list" where
  "announced w = List.map_filter announced_name (broadcasts w)"

text \<open>
  \<open>settled k job\<close> is the list of items with the fields that \<open>processItem\<close> writes on item
  \<open>k\<close> blanked out: equal values mean that the other items, and the other fields of item
  \<open>k\<close>, are the same.
\<close>

definition blank :: "transfer_item \<Rightarrow> transfer_item" where
  "blank it = it\<lparr>status := Pending, progress := 0, speed := None, error := None\<rparr>"


text \<open>
  A property \<open>Q\<close> of the state that no command and no progress message changes, and
  that the writes to the status, progress, speed and error of item \<open>k\<close> do not change.
\<close>

definition quiet :: "nat \<Rightarrow> (pstate \<Rightarrow> 'q) \<Rightarrow> bool" where
  "quiet k Q =
     ((\<forall>s s'. fst s' = fst s \<and> rest_of (snd s') = rest_of (snd s) \<longrightarrow> Q s' = Q s)
      \<and> (\<forall>s p st. Q (item_progress k p st s) = Q s)
      \<and> (\<forall>s f. (\<forall>x. blank (f x) = blank x) \<longrightarrow> Q (update_item k f s) = Q s)
      \<and> (\<forall>s n. Q (set_actualParts n s) = Q s)
      \<and> (\<forall>s job. Q (update_world (saveJob job) s) = Q s))"

text \<open>
  The steps of the packaging and upload of item \<open>k\<close> on the source \<open>sid\<close>: a command on the
  source, a progress message for the item, a write to the status, progress or speed of
  the item (\<open>plain\<close> blanks these three fields), the record of the number of parts, and the
  announcement of an uploaded file. \<open>proceeds E sid k s s'\<close> holds when \<open>s'\<close> is reached from \<open>s\<close>
  by such steps.
\<close>

definition plain :: "transfer_item \<Rightarrow> transfer_item" where
  "plain it = it\<lparr>status := Pending, progress := 0, speed := None\<rparr>"

inductive proceeds :: "env \<Rightarrow> string \<Rightarrow> nat \<Rightarrow> pstate \<Rightarrow> pstate \<Rightarrow> bool"
  for E :: env and sid :: string and k :: nat
where
  stay: "proceeds E sid k s s"
| command: "proceeds E sid k s s1
    \<Longrightarrow> proceeds E sid k s (snd (in_world (execWithProgress E sid cmd) s1))"
| message: "proceeds E sid k s s1 \<Longrightarrow> proceeds E sid k s (item_progress k p st s1)"
| item: "proceeds E sid k s s1 \<Longrightarrow> (\<And>x. plain (f x) = plain x)
    \<Longrightarrow> proceeds E sid k s (update_item k f s1)"
| parts: "proceeds E sid k s s1 \<Longrightarrow> proceeds E sid k s (set_actualParts n s1)"
| announce: "proceeds E sid k s s1
    \<Longrightarrow> proceeds E sid k s (update_world (broadcastFileUploaded j fi) s1)"

text \<open>The bound on the relative error of one rounding to a double.\<close>

definition unit_roundoff :: rat where
  "unit_roundoff = 1 / 2 ^ 53"

section \<open>Example runs\<close>

text \<open>
  A source \<open>src\<close> and two destinations \<open>d1\<close> and \<open>d2\<close>. Every dial succeeds; a command on
  \<open>d1\<close> or \<open>src\<close> prints \<open>ok\<close>, a command on \<open>d2\<close> prints nothing and reports no error,
  so that \<open>rclone version\<close> never shows an installed rclone on \<open>d2\<close>.
\<close>

definition demo_server :: "string \<Rightarrow> ssh_config" where
  "demo_server n =
     \<lparr>cfg_id = n, cfg_name = n, cfg_host = n, cfg_port = 22, cfg_username = ''root''\<rparr>"

definition demo_env :: env where
  "demo_env =
     \<lparr>dial = (\<lambda>t c. None),
      run = (\<lambda>t c cmd. Inr (if c = ''d2'' then [] else [(Stdout, ''ok'')])),
      sftp_open = (\<lambda>t c. None),
      fastPut = (\<lambda>t c a b. None),
      fastGet = (\<lambda>t c a b. None),
      readdir = (\<lambda>t c p. Inr []),
      localConfig = Some ''[gdrive]'',
      speedMatch = (\<lambda>s. None),
      formatBytes = (\<lambda>n. ''0 B''),
      isoNow = (\<lambda>t. ''2024-01-01T00:00:00.000Z''),
      dateNow = (\<lambda>t. 1700000000000),
      randomId = (\<lambda>t. ''abc''),
      localeCompare = (\<lambda>a b. 0)\<rparr>"

definition demo_world :: world where
  "demo_world =
     \<lparr>connections = Map.empty, tick = 0, commands = [], broadcasts = [],
      uploadedFiles = Map.empty,
      servers = [demo_server ''src'', demo_server ''d1'', demo_server ''d2''],
      jobs = []\<rparr>"

definition demo_job :: transfer_job where
  "demo_job =
     \<lparr>job_id = ''job1'', sourceServerId = ''src'', destinationServerIds = [''d1'', ''d2''],
      sourceFolder = ''/data'', destinationFolder = ''/dest'', driveFolder = ''drive'',
      zipSizeLimitMB = 1, deleteAfterUpload = False, deleteFromDrive = False,
      autoExtract = True, items = [], zipInfo = None\<rparr>"

definition demo_slots :: "file_destination_progress list" where
  "demo_slots =
     [\<lparr>serverId = ''d1'', serverName = ''d1'', dest_status = Dest_pending, dest_progress = 0,
       dest_error = None\<rparr>,
      \<lparr>serverId = ''d2'', serverName = ''d2'', dest_status = Dest_pending, dest_progress = 0,
       dest_error = None\<rparr>]"

text \<open>The uploaded archive of a single-archive job, and the poll that announces it.\<close>

definition demo_single :: transfer_job where
  "demo_single = demo_job\<lparr>zipInfo := Some
     \<lparr>needsSplit = False, limitMB = 1, baseZipName = ''t'', baseZipPath = ''/tmp/t.zip'',
      totalBytes = 1000, actualParts = None\<rparr>\<rparr>"

definition demo_archive :: uploaded_file_info where
  "demo_archive =
     \<lparr>file_id = ''it'', file_fileName = ''t.zip'', file_drivePath = ''drive/t.zip'',
      uploadedAt = ''2024-01-01T00:00:00.000Z'', file_size_text = ''0 B'',
      destinations = demo_slots\<rparr>"

text \<open>The two parts of a split job.\<close>

definition demo_split :: transfer_job where
  "demo_split = demo_job\<lparr>zipInfo := Some
     \<lparr>needsSplit = True, limitMB = 1, baseZipName = ''t'', baseZipPath = ''/tmp/t.zip'',
      totalBytes = 2000000, actualParts = Some 2\<rparr>\<rparr>"

definition demo_part :: "string \<Rightarrow> uploaded_file_info" where
  "demo_part n =
     \<lparr>file_id = ''it_part'' @ n, file_fileName = ''t.part'' @ n @ ''.zip'',
      file_drivePath = ''drive/t.part'' @ n @ ''.zip'',
      uploadedAt = ''2024-01-01T00:00:00.000Z'', file_size_text = ''0 B'',
      destinations = demo_slots\<rparr>"

text \<open>
  The schedule: the upload worker has announced everything and finished before the
  download worker's first pass; the second pass finds every part processed.
\<close>

definition demo_polls :: "uploaded_file_info list \<Rightarrow> poll list" where
  "demo_polls fs =
     [\<lparr>poll_cancelled = False, poll_uploadComplete = True, poll_uploaded = fs\<rparr>,
      \<lparr>poll_cancelled = False, poll_uploadComplete = True, poll_uploaded = []\<rparr>]"

text \<open>The hosts of the example where the dial of \<open>d2\<close> is refused.\<close>

definition demo_env_refused :: env where
  "demo_env_refused =
     demo_env\<lparr>dial := (\<lambda>t c. if cfg_id c = ''d2'' then Some ''connect ECONNREFUSED'' else None)\<rparr>"

text \<open>
  A source folder with one file of 2000000 bytes and a limit of 1 MiB: every command on
  the source prints the line \<open>2000000 /data/big.bin\<close>, which is the size for \<open>du\<close> and
  \<open>stat\<close> and the listing for \<open>find\<close>. The source has a session in the pool.
\<close>

definition demo_source_env :: env where
  "demo_source_env = demo_env\<lparr>run := (\<lambda>t c cmd. Inr [(Stdout, ''2000000 /data/big.bin'')])\<rparr>"

definition demo_world_src :: world where
  "demo_world_src = demo_world\<lparr>connections := [''src'' \<mapsto> demo_server ''src'']\<rparr>"

text \<open>
  What the packaging of that folder leaves: the job with its archive data, and the one
  uploaded archive.
\<close>

definition demo_lone_job :: transfer_job where
  "demo_lone_job = demo_job\<lparr>zipInfo := Some
     \<lparr>needsSplit = True, limitMB = 1, baseZipName = ''transfer_1700000000000'',
      baseZipPath = ''/tmp/transfer_1700000000000.zip'', totalBytes = 2000000,
      actualParts = Some 1\<rparr>\<rparr>"

definition demo_lone_archive :: uploaded_file_info where
  "demo_lone_archive =
     \<lparr>file_id = ''item_1700000000000_abc_part001'',
      file_fileName = ''transfer_1700000000000.zip'',
      file_drivePath = ''drive/transfer_1700000000000.zip'',
      uploadedAt = ''2024-01-01T00:00:00.000Z'', file_size_text = ''0 B'',
      destinations = demo_slots\<rparr>"

text \<open>The same source with two such files: every command prints both lines.\<close>

definition demo_pair_env :: env where
  "demo_pair_env =
     demo_env\<lparr>run := (\<lambda>t c cmd.
       Inr [(Stdout, ''2000000 /data/a.bin'' @ newline @ ''2000000 /data/b.bin'')])\<rparr>"

text \<open>A stored single-archive job whose only item has failed once.\<close>

definition demo_failed_item :: transfer_item where
  "demo_failed_item =
     \<lparr>item_id = ''it'', fileName = ''t.zip'', sourcePath = ''/tmp/t.zip'',
      drivePath = ''drive/t.zip'', destinationPath = ''/dest'', status = Failed, progress = 40,
      speed = None, error = Some ''zip failed'',
      createdAt = ''2024-01-01T00:00:00.000Z'', completedAt = None, retryCount = 0\<rparr>"

definition demo_stored_job :: transfer_job where
  "demo_stored_job = demo_single\<lparr>items := [demo_failed_item]\<rparr>"

text \<open>
  The store holds the job; in \<open>demo_world_retry\<close> the source has a session, in
  \<open>demo_world_offline\<close> it has none.
\<close>

definition demo_world_retry :: world where
  "demo_world_retry = demo_world_src\<lparr>jobs := [demo_stored_job]\<rparr>"

definition demo_world_offline :: world where
  "demo_world_offline = demo_world\<lparr>jobs := [demo_stored_job]\<rparr>"

section \<open>Lemmas\<close>

subsection \<open>Invariants of the loop\<close>

lemma batch_loop_concat:
  "batch_loop B files batches cur sz = (bs, c, s)
    \<Longrightarrow> concat bs @ c = concat batches @ cur @ files"
proof (induction files arbitrary: batches cur sz)
  case Nil
  then show ?case by simp
next
  case (Cons f files)
  then show ?case
    by (auto split: if_splits)
qed

lemma batch_loop_ok:
  assumes "batch_loop B files batches cur sz = (bs, c, s)"
    and "list_all (batch_ok B) batches"
    and "sz = batch_size cur"
    and "cur = [] \<or> batch_size cur \<le> B"
  shows "list_all (batch_ok B) bs \<and> s = batch_size c \<and> (c = [] \<or> batch_size c \<le> B)"
  using assms
proof (induction files arbitrary: batches cur sz)
  case Nil
  then show ?case by auto
next
  case (Cons f files)
  show ?case
  proof (cases "file_size f > B")
    case big: True
    show ?thesis
    proof (cases "cur = []")
      case True
      with big Cons.prems show ?thesis
        by (intro Cons.IH [of "batches @ [[f]]" cur sz])
          (simp_all add: batch_ok_def)
    next
      case False
      with big Cons.prems show ?thesis
        by (intro Cons.IH [of "(batches @ [cur]) @ [[f]]" "[]" 0])
          (simp_all add: batch_ok_def batch_size_def)
    qed
  next
    case small: False
    show ?thesis
    proof (cases "sz + file_size f > B \<and> cur \<noteq> []")
      case True
      with small Cons.prems show ?thesis
        by (intro Cons.IH [of "batches @ [cur]" "[f]" "0 + file_size f"])
          (simp_all add: batch_ok_def batch_size_def)
    next
      case False
      with small Cons.prems show ?thesis
        by (intro Cons.IH [of batches "cur @ [f]" "sz + file_size f"])
          (auto simp: batch_ok_def batch_size_def)
    qed
  qed
qed

lemma batch_loop_nonempty:
  "batch_loop B files batches cur sz = (bs, c, s) \<Longrightarrow> [] \<notin> set batches \<Longrightarrow> [] \<notin> set bs"
proof (induction files arbitrary: batches cur sz)
  case Nil
  then show ?case by simp
next
  case (Cons f files)
  then show ?case
    by (auto split: if_splits)
qed

lemma batch_loop_keeps:
  "batch_loop B files batches cur sz = (bs, c, s) \<Longrightarrow> set batches \<subseteq> set bs"
proof (induction files arbitrary: batches cur sz)
  case Nil
  then show ?case by simp
next
  case (Cons f files)
  from Cons.prems show ?case
    by (auto split: if_splits dest!: Cons.IH)
qed

lemma batch_loop_oversized:
  "batch_loop B files batches cur sz = (bs, c, s) \<Longrightarrow> f \<in> set files
    \<Longrightarrow> B < file_size f \<Longrightarrow> [f] \<in> set bs"
proof (induction files arbitrary: batches cur sz)
  case Nil
  then show ?case by simp
next
  case (Cons g files)
  show ?case
  proof (cases "f = g")
    case True
    with Cons.prems show ?thesis
      by (auto split: if_splits dest: batch_loop_keeps)
  next
    case False
    with Cons.prems Cons.IH show ?thesis
      by (auto split: if_splits)
  qed
qed

subsection \<open>What the remote operations leave unchanged\<close>

lemma rest_of_simps:
  "rest_of w' = rest_of w \<Longrightarrow> connections w' = connections w"
  "rest_of w' = rest_of w \<Longrightarrow> broadcasts w' = broadcasts w"
  "rest_of w' = rest_of w \<Longrightarrow> uploadedFiles w' = uploadedFiles w"
  "rest_of w' = rest_of w \<Longrightarrow> servers w' = servers w"
  "rest_of w' = rest_of w \<Longrightarrow> jobs w' = jobs w"
  by (simp_all add: rest_of_def)

lemma execWithProgress_rest: "rest_of (snd (execWithProgress E c cmd w)) = rest_of w"
  by (simp add: execWithProgress_def rest_of_def split: option.splits sum.splits)

lemma exec_rest: "rest_of (snd (exec E c cmd w)) = rest_of w"
  using execWithProgress_rest [of E c cmd w]
  by (auto simp: exec_def split: prod.splits sum.splits)

lemma checkInstalled_rest: "rest_of (snd (checkInstalled E c w)) = rest_of w"
  using exec_rest [of E c Rclone_version w]
  by (auto simp: checkInstalled_def split: prod.splits sum.splits)

lemma install_rest: "rest_of (snd (install E c w)) = rest_of w"
proof -
  obtain r1 w1 where e1: "exec E c Install_script w = (r1, w1)" by (cases "exec E c Install_script w")
  obtain r2 w2 where e2: "exec E c Install_user w1 = (r2, w2)" by (cases "exec E c Install_user w1")
  obtain r3 w3 where e3: "exec E c Add_path w2 = (r3, w3)" by (cases "exec E c Add_path w2")
  have 1: "rest_of w1 = rest_of w" using exec_rest [of E c Install_script w] e1 by simp
  have 2: "rest_of w2 = rest_of w" using exec_rest [of E c Install_user w1] e2 1 by simp
  have 3: "rest_of w3 = rest_of w" using exec_rest [of E c Add_path w2] e3 2 by simp
  have c: "rest_of (snd (checkInstalled E c v)) = rest_of v" for v
    by (rule checkInstalled_rest)
  show ?thesis
    using 1 2 3 c [of w1] c [of w3]
    by (auto simp: install_def e1 e2 e3 split: prod.splits sum.splits bool.splits)
qed

lemma copyConfigToServer_rest: "rest_of (snd (copyConfigToServer E c w)) = rest_of w"
proof (cases "localConfig E")
  case None
  then show ?thesis by (simp add: copyConfigToServer_def)
next
  case (Some content)
  obtain r1 w1 where e1: "exec E c Mkdir_config w = (r1, w1)" by (cases "exec E c Mkdir_config w")
  obtain r2 w2 where e2: "exec E c (Write_config content) w1 = (r2, w2)"
    by (cases "exec E c (Write_config content) w1")
  have 1: "rest_of w1 = rest_of w" using exec_rest [of E c Mkdir_config w] e1 by simp
  have 2: "rest_of w2 = rest_of w" using exec_rest [of E c "Write_config content" w1] e2 1 by simp
  show ?thesis
    using 1 2 by (auto simp: copyConfigToServer_def Some e1 e2 split: sum.splits)
qed

lemma download_rest: "rest_of (snd (download E c rn rp dp w)) = rest_of w"
  using execWithProgress_rest [of E c "Rclone_copyto (rn @ '':'' @ rp) dp" w]
  by (auto simp: download_def split: prod.splits sum.splits)

lemma upload_rest: "rest_of (snd (upload E c sp rn rp w)) = rest_of w"
  using execWithProgress_rest [of E c "Rclone_copyto sp (rn @ '':'' @ rp)" w]
  by (auto simp: upload_def split: prod.splits sum.splits)

lemma delete_rest: "rest_of (snd (delete E c rn rp w)) = rest_of w"
  using exec_rest [of E c "Rclone_deletefile (rn @ '':'' @ rp)" w]
  by (auto simp: delete_def split: prod.splits sum.splits)

subsection \<open>The commands a step starts\<close>

lemma starts_same: "commands w' = commands w \<Longrightarrow> starts P w w'"
  by (simp add: starts_def)

lemma starts_trans: "starts P w w1 \<Longrightarrow> starts P w1 w2 \<Longrightarrow> starts P w w2"
  by (auto simp: starts_def)

lemma starts_commands_eq: "starts P w w' \<Longrightarrow> commands v = commands w \<Longrightarrow> starts P v w'"
  by (simp add: starts_def)

lemma execWithProgress_starts: "P cmd \<Longrightarrow> starts P w (snd (execWithProgress E c cmd w))"
  by (auto simp: execWithProgress_def starts_def split: option.splits sum.splits)

lemma exec_starts: "P cmd \<Longrightarrow> starts P w (snd (exec E c cmd w))"
  using execWithProgress_starts [of P cmd w E c]
  by (auto simp: exec_def split: prod.splits sum.splits)

lemma download_starts: "P (Rclone_copyto (rn @ '':'' @ rp) dp) \<Longrightarrow> starts P w (snd (download E c rn rp dp w))"
  using execWithProgress_starts [of P "Rclone_copyto (rn @ '':'' @ rp) dp" w E c]
  by (auto simp: download_def split: prod.splits sum.splits)

lemma delete_starts: "P (Rclone_deletefile (rn @ '':'' @ rp)) \<Longrightarrow> starts P w (snd (delete E c rn rp w))"
  using exec_starts [of P "Rclone_deletefile (rn @ '':'' @ rp)" w E c]
  by (auto simp: delete_def split: prod.splits sum.splits)

lemma bfdp_commands [simp]:
  "commands (broadcastFileDestinationProgress j f d st p e w) = commands w"
  by (simp add: broadcastFileDestinationProgress_def split: option.splits)

lemma bfu_commands [simp]: "commands (broadcastFileUploaded j f w) = commands w"
  by (simp add: broadcastFileUploaded_def Let_def)

lemma download_callbacks_commands [simp]:
  "commands (foldl (download_callback job file d) w reports) = commands w"
  by (induction reports arbitrary: w) (simp_all add: download_callback_def)

lemma announce_commands [simp]:
  "commands (foldl (\<lambda>w' f. broadcastFileUploaded j f w') w fs) = commands w"
  by (induction fs arbitrary: w) simp_all

lemma bindE_unit_starts:
  assumes "\<And>v. starts P v (snd (m v))"
  shows "starts P w (snd (bindE m (\<lambda>r w'. (Inr (), w')) w))"
  using assms [of w] by (auto simp: bindE_def split: prod.splits sum.splits)

lemma stage_part_starts:
  assumes "zipInfo job = Some zi" and "needsSplit zi"
  shows "starts (\<lambda>c. \<not> is_extract c) w (snd (stage_part E job file destServer d w))"
  using assms
  by (simp add: stage_part_def bindE_unit_starts exec_starts)

lemma downloadFileToDestination_starts:
  assumes "zipInfo job = Some zi" and "needsSplit zi"
  shows "starts (\<lambda>c. \<not> is_extract c) w (downloadFileToDestination E job file d w)"
proof (cases "getServerById w d")
  case None
  then show ?thesis by (simp add: downloadFileToDestination_def starts_same)
next
  case (Some destServer)
  let ?P = "\<lambda>c. \<not> is_extract c"
  let ?w0 = "broadcastFileDestinationProgress (job_id job) (file_id file) d Dest_downloading 0 None w"
  obtain res reports w1 where dl:
    "download E (cfg_id destServer) ''gdrive'' (file_drivePath file) (''/tmp/'' @ file_fileName file) ?w0
      = ((res, reports), w1)"
    by (metis prod.collapse)
  let ?w1' = "foldl (download_callback job file d) w1 reports"
  obtain r2 w2 where st: "stage_part E job file destServer d ?w1' = (r2, w2)"
    by (metis prod.collapse)
  have a: "starts ?P w w1"
    using download_starts [of ?P "''gdrive''" "file_drivePath file" "''/tmp/'' @ file_fileName file" ?w0 E "cfg_id destServer"] dl
    by (auto intro: starts_commands_eq)
  have b: "starts ?P w1 w2"
    using stage_part_starts [OF assms, of ?w1' E "file" destServer d] st
    by (auto intro: starts_commands_eq)
  have c: "starts ?P w2 (snd (delete E (cfg_id destServer) ''gdrive'' (file_drivePath file) w2))"
    by (rule delete_starts) simp
  from a b have ab: "starts ?P w w2" by (rule starts_trans)
  show ?thesis
  proof (cases r2)
    case (Inl e)
    then show ?thesis
      using ab by (simp add: downloadFileToDestination_def Some dl [simplified] st starts_def)
  next
    case (Inr u)
    then show ?thesis
      using ab starts_trans [OF ab c]
      by (simp add: downloadFileToDestination_def Some dl [simplified] st starts_def)
  qed
qed

lemma processFile_starts:
  assumes "zipInfo job = Some zi" and "needsSplit zi"
  shows "starts (\<lambda>c. \<not> is_extract c) w (foldl (\<lambda>w' destId. downloadFileToDestination E job file destId w') w ds)"
proof (induction ds arbitrary: w)
  case Nil
  then show ?case by (simp add: starts_same)
next
  case (Cons d ds)
  show ?case
    using starts_trans [OF downloadFileToDestination_starts [OF assms, of w E "file" d] Cons.IH]
    by simp
qed

lemma process_pending_starts:
  assumes "zipInfo job = Some zi" and "needsSplit zi"
  shows "starts (\<lambda>c. \<not> is_extract c) w (snd (process_pending E job fs pf w))"
proof (induction fs arbitrary: w pf)
  case Nil
  then show ?case by (simp add: starts_same)
next
  case (Cons f fs)
  show ?case
    using starts_trans [OF processFile_starts [OF assms, of w E f "destinationServerIds job"] Cons.IH]
    by (simp add: processFile_def)
qed

lemma downloadLoop_starts:
  assumes "zipInfo job = Some zi" and "needsSplit zi"
  shows "downloadLoop E job polls pf w = Some (pf', w')
    \<Longrightarrow> starts (\<lambda>c. \<not> is_extract c) w w'"
proof (induction polls arbitrary: pf w)
  case Nil
  then show ?case by simp
next
  case (Cons p ps)
  let ?P = "\<lambda>c. \<not> is_extract c"
  let ?w0 = "foldl (\<lambda>w' f. broadcastFileUploaded (job_id job) f w') w (poll_uploaded p)"
  let ?files = "job_files ?w0 (job_id job)"
  let ?pending = "filter (\<lambda>f. file_id f \<notin> set pf) ?files"
  have w0: "starts ?P w ?w0" by (simp add: starts_same)
  show ?case
  proof (cases "poll_cancelled p \<or> (poll_uploadComplete p \<and> length pf \<ge> length ?files \<and> length ?files > 0)")
    case True
    with Cons.prems w0 show ?thesis by (auto simp: Let_def split: if_splits)
  next
    case False
    show ?thesis
    proof (cases "?pending = []")
      case True
      with False Cons.prems have "downloadLoop E job ps pf ?w0 = Some (pf', w')"
        by (auto simp: Let_def split: if_splits)
      from Cons.IH [OF this] w0 show ?thesis by (rule starts_trans [rotated])
    next
      case nonempty: False
      obtain pf1 w1 where pp: "process_pending E job ?pending pf ?w0 = (pf1, w1)"
        by (metis prod.collapse)
      with False nonempty Cons.prems have "downloadLoop E job ps pf1 w1 = Some (pf', w')"
        by (auto simp: Let_def split: if_splits)
      from Cons.IH [OF this] have 2: "starts ?P w1 w'" .
      have 1: "starts ?P ?w0 w1"
        using process_pending_starts [OF assms, of ?w0 E ?pending pf] pp by simp
      from starts_trans [OF starts_trans [OF w0 1] 2] show ?thesis .
    qed
  qed
qed

subsection \<open>The announced parts and the processed parts\<close>

lemma map_update_first:
  "(\<And>x. P x \<Longrightarrow> g (f x) = g x) \<Longrightarrow> map g (update_first P f xs) = map g xs"
  by (induction xs) simp_all

lemma rest_file_ids: "rest_of w' = rest_of w \<Longrightarrow> file_ids w' j = file_ids w j"
  by (simp add: rest_of_def file_ids_def job_files_def)

lemma bfdp_file_ids [simp]:
  "file_ids (broadcastFileDestinationProgress j' fid d st p e w) j = file_ids w j"
  by (auto simp: broadcastFileDestinationProgress_def file_ids_def job_files_def
      set_destination_def map_update_first split: option.splits)

lemma download_callbacks_file_ids [simp]:
  "file_ids (foldl (download_callback job fi d) w reports) j = file_ids w j"
  by (induction reports arbitrary: w) (simp_all add: download_callback_def)

lemma bindE_unit_rest:
  assumes "\<And>v. rest_of (snd (m v)) = rest_of v"
  shows "rest_of (snd (bindE m (\<lambda>r w'. (Inr (), w')) w)) = rest_of w"
  using assms [of w] by (auto simp: bindE_def split: prod.splits sum.splits)

lemma bindE_rest:
  assumes "\<And>v. rest_of (snd (m v)) = rest_of v" and "\<And>x v. rest_of (snd (f x v)) = rest_of v"
  shows "rest_of (snd (bindE m f w)) = rest_of w"
  using assms(1) [of w] assms(2) by (auto simp: bindE_def split: prod.splits sum.splits)

lemma stage_part_file_ids [simp]:
  "file_ids (snd (stage_part E job fi destServer d w)) j = file_ids w j"
proof -
  have a: "rest_of (snd (bindE (exec E c cmd) (\<lambda>r w'. (Inr (), w')) v)) = rest_of v" for c cmd v
    by (rule bindE_unit_rest) (rule exec_rest)
  have b: "rest_of (snd (bindE (exec E c cmd)
      (\<lambda>r. bindE (exec E c cmd') (\<lambda>r' w'. (Inr (), w'))) v)) = rest_of v" for c cmd cmd' v
    by (rule bindE_rest) (rule exec_rest, rule a)
  show ?thesis
    unfolding stage_part_def Let_def
    by (auto simp: rest_file_ids [OF a] rest_file_ids [OF b])
qed

lemma downloadFileToDestination_file_ids [simp]:
  "file_ids (downloadFileToDestination E job fi d w) j = file_ids w j"
proof (cases "getServerById w d")
  case None
  then show ?thesis by (simp add: downloadFileToDestination_def)
next
  case (Some destServer)
  have dl: "file_ids (snd (download E c rn rp dp v)) j = file_ids v j" for c rn rp dp v
    by (rule rest_file_ids) (rule download_rest)
  have de: "file_ids (snd (delete E c rn rp v)) j = file_ids v j" for c rn rp v
    by (rule rest_file_ids) (rule delete_rest)
  obtain res reports w1 where d1:
    "download E (cfg_id destServer) ''gdrive'' (file_drivePath fi) (''/tmp/'' @ file_fileName fi)
       (broadcastFileDestinationProgress (job_id job) (file_id fi) d Dest_downloading 0 None w)
      = ((res, reports), w1)"
    by (metis prod.collapse)
  have 1: "file_ids w1 j = file_ids w j"
    using dl [of "cfg_id destServer" "''gdrive''" "file_drivePath fi" "''/tmp/'' @ file_fileName fi"
        "broadcastFileDestinationProgress (job_id job) (file_id fi) d Dest_downloading 0 None w"] d1
    by simp
  obtain r2 w2 where st:
    "stage_part E job fi destServer d (foldl (download_callback job fi d) w1 reports) = (r2, w2)"
    by (metis prod.collapse)
  have 2: "file_ids w2 j = file_ids w j"
    using stage_part_file_ids [of E job fi destServer d "foldl (download_callback job fi d) w1 reports" j]
      st 1 by simp
  show ?thesis
    using 2 de [of "cfg_id destServer" "''gdrive''" "file_drivePath fi" w2]
    by (simp add: downloadFileToDestination_def Some d1 [simplified] st split: sum.splits)
qed

lemma processFile_file_ids [simp]: "file_ids (processFile E job fi w) j = file_ids w j"
proof -
  have "file_ids (foldl (\<lambda>w' destId. downloadFileToDestination E job fi destId w') w ds) j
      = file_ids w j" for ds
    by (induction ds arbitrary: w) simp_all
  then show ?thesis by (simp add: processFile_def)
qed

lemma process_pending_file_ids [simp]:
  "file_ids (snd (process_pending E job fs pf w)) j = file_ids w j"
  by (induction fs arbitrary: pf w) simp_all

lemma process_pending_processed:
  "set (fst (process_pending E job fs pf w)) = set pf \<union> file_id ` set fs"
  by (induction fs arbitrary: pf w) auto

lemma process_pending_distinct:
  "distinct pf \<Longrightarrow> distinct (fst (process_pending E job fs pf w))"
  by (induction fs arbitrary: pf w) simp_all

lemma find_None_iff_ids: "(find (\<lambda>f. file_id f = x) fs = None) = (x \<notin> file_id ` set fs)"
  by (induction fs) auto

lemma map_file_id_replace:
  "map file_id (update_first (\<lambda>f. file_id f = file_id fi) (\<lambda>f. fi) fs) = map file_id fs"
  by (rule map_update_first) simp

lemma bfu_file_ids:
  "file_ids (broadcastFileUploaded j fi w) j
    = (if file_id fi \<in> set (file_ids w j) then file_ids w j else file_ids w j @ [file_id fi])"
proof -
  have new: "job_files (broadcastFileUploaded j fi w) j
      = (if find (\<lambda>f. file_id f = file_id fi) (job_files w j) \<noteq> None
         then update_first (\<lambda>f. file_id f = file_id fi) (\<lambda>f. fi) (job_files w j)
         else job_files w j @ [fi])"
    by (simp add: broadcastFileUploaded_def Let_def job_files_def)
  show ?thesis
    unfolding file_ids_def new
    by (simp add: find_None_iff_ids map_file_id_replace)
qed

lemma announce_file_ids:
  "distinct (file_ids w j) \<Longrightarrow>
    distinct (file_ids (foldl (\<lambda>w' f. broadcastFileUploaded j f w') w fs) j)
    \<and> set (file_ids w j) \<subseteq> set (file_ids (foldl (\<lambda>w' f. broadcastFileUploaded j f w') w fs) j)"
proof (induction fs arbitrary: w)
  case Nil
  then show ?case by simp
next
  case (Cons f fs)
  have d: "distinct (file_ids (broadcastFileUploaded j f w) j)"
    using Cons.prems by (simp add: bfu_file_ids)
  have s: "set (file_ids w j) \<subseteq> set (file_ids (broadcastFileUploaded j f w) j)"
    by (auto simp: bfu_file_ids)
  from Cons.IH [OF d] s show ?case by auto
qed

text \<open>
  When the loop ends and no poll was a cancellation, every announced part has been
  processed.
\<close>

lemma downloadLoop_all_processed:
  assumes "downloadLoop E job polls pf w = Some (pf', w')"
    and "\<forall>p \<in> set polls. \<not> poll_cancelled p"
    and "distinct pf"
    and "distinct (file_ids w (job_id job))"
    and "set pf \<subseteq> set (file_ids w (job_id job))"
  shows "set (file_ids w' (job_id job)) = set pf'"
  using assms
proof (induction polls arbitrary: pf w)
  case Nil
  then show ?case by simp
next
  case (Cons p ps)
  let ?j = "job_id job"
  let ?w0 = "foldl (\<lambda>w' f. broadcastFileUploaded ?j f w') w (poll_uploaded p)"
  let ?files = "job_files ?w0 ?j"
  let ?pending = "filter (\<lambda>f. file_id f \<notin> set pf) ?files"
  have nc: "\<not> poll_cancelled p" and ncs: "\<forall>p \<in> set ps. \<not> poll_cancelled p"
    using Cons.prems(2) by simp_all
  have d0: "distinct (file_ids ?w0 ?j)" and s0: "set (file_ids w ?j) \<subseteq> set (file_ids ?w0 ?j)"
    using announce_file_ids [OF Cons.prems(4), of "poll_uploaded p"] by simp_all
  have sub0: "set pf \<subseteq> set (file_ids ?w0 ?j)"
    using Cons.prems(5) s0 by blast
  show ?case
  proof (cases "poll_uploadComplete p \<and> length pf \<ge> length ?files \<and> length ?files > 0")
    case True
    with nc Cons.prems(1) have res: "pf' = pf" "w' = ?w0"
      by (simp_all add: Let_def)
    have "card (set (file_ids ?w0 ?j)) = length ?files"
      using distinct_card [OF d0] by (simp add: file_ids_def)
    moreover have "card (set pf) = length pf"
      using Cons.prems(3) by (rule distinct_card)
    ultimately have "card (set (file_ids ?w0 ?j)) \<le> card (set pf)"
      using True by simp
    then have "set pf = set (file_ids ?w0 ?j)"
      using sub0 by (simp add: card_seteq)
    with res show ?thesis by simp
  next
    case False
    show ?thesis
    proof (cases "?pending = []")
      case True
      with False nc Cons.prems(1) have "downloadLoop E job ps pf ?w0 = Some (pf', w')"
        by (auto simp: Let_def split: if_splits)
      from Cons.IH [OF this ncs Cons.prems(3) d0 sub0] show ?thesis .
    next
      case nonempty: False
      obtain pf1 w1 where pp: "process_pending E job ?pending pf ?w0 = (pf1, w1)"
        by (metis prod.collapse)
      with False nonempty nc Cons.prems(1) have run: "downloadLoop E job ps pf1 w1 = Some (pf', w')"
        by (auto simp: Let_def split: if_splits)
      have ids1: "file_ids w1 ?j = file_ids ?w0 ?j"
        using process_pending_file_ids [of E job ?pending pf ?w0 ?j] pp by simp
      have d1: "distinct pf1"
        using process_pending_distinct [OF Cons.prems(3), of E job ?pending ?w0] pp by simp
      have "set pf1 = set pf \<union> file_id ` set ?pending"
        using process_pending_processed [of E job ?pending pf ?w0] pp by simp
      then have "set pf1 \<subseteq> set (file_ids ?w0 ?j)"
        using sub0 by (auto simp: file_ids_def)
      then have sub1: "set pf1 \<subseteq> set (file_ids w1 ?j)"
        by (simp only: ids1)
      from Cons.IH [OF run ncs d1 _ sub1] d0 ids1 show ?thesis by simp
    qed
  qed
qed

subsection \<open>The bulk extraction\<close>

lemma bulkExtract_starts: "starts is_bulk w (bulkExtract E job zi d w)"
proof (cases "getServerById w d")
  case None
  then show ?thesis by (simp add: bulkExtract_def starts_same)
next
  case (Some destServer)
  let ?u = "Bulk_unzip (destinationFolder job) (baseZipName zi)"
  let ?r = "Bulk_rm (destinationFolder job) (baseZipName zi)"
  obtain r1 w1 where e1: "exec E (cfg_id destServer) ?u w = (r1, w1)"
    by (metis prod.collapse)
  have 1: "starts is_bulk w w1"
    using exec_starts [of is_bulk ?u w E "cfg_id destServer"] e1 by simp
  have 2: "starts is_bulk w1 (snd (exec E (cfg_id destServer) ?r w1))"
    by (rule exec_starts) simp
  show ?thesis
    using 1 starts_trans [OF 1 2]
    by (simp add: bulkExtract_def Some e1 split: sum.splits)
qed

lemma bulkExtractAll_starts: "starts is_bulk w (bulkExtractAll E job w)"
proof -
  have "starts is_bulk w (foldl (\<lambda>w' destId. bulkExtract E job zi destId w') w ds)" for zi ds
  proof (induction ds arbitrary: w)
    case Nil
    then show ?case by (simp add: starts_same)
  next
    case (Cons d ds)
    show ?case
      using starts_trans [OF bulkExtract_starts [of w E job zi d] Cons.IH] by simp
  qed
  then show ?thesis
    by (simp add: bulkExtractAll_def starts_same split: option.splits)
qed

lemma complete_items_commands [simp]: "commands (snd (complete_items E s)) = commands (snd s)"
proof -
  have "commands (foldl (\<lambda>w it. broadcastProgress j (item_id it) 100 Completed w) w its) = commands w"
    for j w its
    by (induction its arbitrary: w) (simp_all add: broadcastProgress_def)
  then show ?thesis by (simp add: complete_items_def)
qed

subsection \<open>Preparation of a destination\<close>

lemma connect_keeps:
  "broadcasts (snd (connect E config w)) = broadcasts w
    \<and> uploadedFiles (snd (connect E config w)) = uploadedFiles w
    \<and> servers (snd (connect E config w)) = servers w"
  by (simp add: connect_def split: option.splits)

lemma prepareDestinationServer_keeps:
  "fst (prepareDestinationServer E job d w) = Inr ()
    \<and> broadcasts (snd (prepareDestinationServer E job d w)) = broadcasts w
    \<and> uploadedFiles (snd (prepareDestinationServer E job d w)) = uploadedFiles w
    \<and> servers (snd (prepareDestinationServer E job d w)) = servers w"
proof (cases "getServerById w d")
  case None
  then show ?thesis by (simp add: prepareDestinationServer_def)
next
  case (Some destServer)
  let ?c = "cfg_id destServer"
  obtain r1 w1 where 1: "connect E destServer w = (r1, w1)" by (metis prod.collapse)
  obtain r2 w2 where 2: "checkInstalled E ?c w1 = (r2, w2)" by (metis prod.collapse)
  obtain w3 where 3: "w3 = (if \<not> r2 then snd (install E ?c w2) else w2)" by simp
  obtain r4 w4 where 4: "copyConfigToServer E ?c w3 = (r4, w4)" by (metis prod.collapse)
  have k1: "broadcasts w1 = broadcasts w \<and> uploadedFiles w1 = uploadedFiles w \<and> servers w1 = servers w"
    using connect_keeps [of E destServer w] 1 by simp
  have k2: "rest_of w2 = rest_of w1" using checkInstalled_rest [of E ?c w1] 2 by simp
  have k3: "rest_of w3 = rest_of w2" using install_rest [of E ?c w2] 3 by simp
  have k4: "rest_of w4 = rest_of w3" using copyConfigToServer_rest [of E ?c w3] 4 by simp
  have res: "prepareDestinationServer E job d w = (Inr (), w4)"
    using 1 2 3 4 by (simp add: prepareDestinationServer_def Some)
  show ?thesis
    using k1 k2 k3 k4 by (simp add: res rest_of_def)
qed

lemma prepareDestinations_keeps:
  "fst (prepareDestinations E job ds w) = Inr ()
    \<and> broadcasts (snd (prepareDestinations E job ds w)) = broadcasts w
    \<and> uploadedFiles (snd (prepareDestinations E job ds w)) = uploadedFiles w
    \<and> servers (snd (prepareDestinations E job ds w)) = servers w"
proof (induction ds arbitrary: w)
  case Nil
  then show ?case by simp
next
  case (Cons d ds)
  obtain r1 w1 where 1: "prepareDestinationServer E job d w = (r1, w1)" by (metis prod.collapse)
  obtain r2 w2 where 2: "prepareDestinations E job ds w1 = (r2, w2)" by (metis prod.collapse)
  from prepareDestinationServer_keeps [of E job d w] 1
  have k1: "r1 = Inr ()" "broadcasts w1 = broadcasts w" "uploadedFiles w1 = uploadedFiles w"
    "servers w1 = servers w" by simp_all
  from Cons.IH [of w1] 2
  have k2: "r2 = Inr ()" "broadcasts w2 = broadcasts w1" "uploadedFiles w2 = uploadedFiles w1"
    "servers w2 = servers w1" by simp_all
  show ?case
    using k1 k2 by (simp add: 1 2)
qed

subsection \<open>The slots of the other destinations\<close>

lemma filter_update_first:
  "(\<And>x. P x \<Longrightarrow> \<not> Q x \<and> \<not> Q (f x)) \<Longrightarrow> filter Q (update_first P f xs) = filter Q xs"
  by (induction xs) auto

lemma rest_slots: "rest_of w' = rest_of w \<Longrightarrow> slots_of w' j sid = slots_of w j sid"
  by (simp add: rest_of_def slots_of_def job_files_def)

lemma set_destination_other:
  "sid \<noteq> d \<Longrightarrow> filter (\<lambda>x. serverId x = sid) (destinations (set_destination d st p e f))
    = filter (\<lambda>x. serverId x = sid) (destinations f)"
  unfolding set_destination_def
  by (simp, rule filter_update_first) auto

lemma bfdp_other_slots:
  assumes "sid \<noteq> d"
  shows "slots_of (broadcastFileDestinationProgress j' fid d st p e w) j sid = slots_of w j sid"
proof (cases "find (\<lambda>f. file_id f = fid) (job_files w j')")
  case None
  then show ?thesis by (simp add: broadcastFileDestinationProgress_def)
next
  case (Some fileInfo)
  have same: "map (\<lambda>f. (file_id f, filter (\<lambda>x. serverId x = sid) (destinations f)))
        (update_first (\<lambda>f. file_id f = fid) (set_destination d st p e) fs)
      = map (\<lambda>f. (file_id f, filter (\<lambda>x. serverId x = sid) (destinations f))) fs" for fs
    by (rule map_update_first) (simp add: set_destination_other [OF assms], simp add: set_destination_def)
  have jf: "job_files (broadcastFileDestinationProgress j' fid d st p e w) j
      = (if j = j' then update_first (\<lambda>f. file_id f = fid) (set_destination d st p e) (job_files w j')
         else job_files w j)"
    using Some by (simp add: broadcastFileDestinationProgress_def job_files_def)
  show ?thesis
    unfolding slots_of_def jf using same [of "job_files w j'"] by simp
qed

text \<open>
  Whatever depends on the world only through what a command leaves unchanged, and is
  not touched by a progress message about destination \<open>d\<close>, is the same before and
  after a part is handled on \<open>d\<close>.
\<close>

lemma downloadFileToDestination_keeps:
  assumes rest: "\<And>v v'. rest_of v' = rest_of v \<Longrightarrow> Q v' = Q v"
    and msg: "\<And>j fid st p e v. Q (broadcastFileDestinationProgress j fid d st p e v) = Q v"
  shows "Q (downloadFileToDestination E job fi d w) = Q w"
proof (cases "getServerById w d")
  case None
  then show ?thesis by (simp add: downloadFileToDestination_def)
next
  case (Some destServer)
  let ?c = "cfg_id destServer"
  have ex: "Q (snd (bindE (exec E ?c cmd) (\<lambda>r w'. (Inr (), w')) v)) = Q v" for cmd v
    by (rule rest, rule bindE_unit_rest, rule exec_rest)
  have ex2: "Q (snd (bindE (exec E ?c cmd)
      (\<lambda>r. bindE (exec E ?c cmd') (\<lambda>r' w'. (Inr (), w'))) v)) = Q v" for cmd cmd' v
    by (rule rest, rule bindE_rest, rule exec_rest, rule bindE_unit_rest, rule exec_rest)
  have cb: "Q (foldl (download_callback job fi d) v reports) = Q v" for v reports
    by (induction reports arbitrary: v) (simp_all add: download_callback_def msg)
  have st: "Q (snd (stage_part E job fi destServer d v)) = Q v" for v
    unfolding stage_part_def Let_def by (simp add: ex ex2 msg)
  have dl: "Q (snd (download E ?c rn rp dp v)) = Q v" for rn rp dp v
    by (rule rest) (rule download_rest)
  have de: "Q (snd (delete E ?c rn rp v)) = Q v" for rn rp v
    by (rule rest) (rule delete_rest)
  obtain res reports w1 where d1:
    "download E ?c ''gdrive'' (file_drivePath fi) (''/tmp/'' @ file_fileName fi)
       (broadcastFileDestinationProgress (job_id job) (file_id fi) d Dest_downloading 0 None w)
      = ((res, reports), w1)"
    by (metis prod.collapse)
  have 1: "Q w1 = Q w"
    using dl [of "''gdrive''" "file_drivePath fi" "''/tmp/'' @ file_fileName fi"
        "broadcastFileDestinationProgress (job_id job) (file_id fi) d Dest_downloading 0 None w"] d1
    by (simp add: msg)
  obtain r2 w2 where s2:
    "stage_part E job fi destServer d (foldl (download_callback job fi d) w1 reports) = (r2, w2)"
    by (metis prod.collapse)
  have 2: "Q w2 = Q w"
    using st [of "foldl (download_callback job fi d) w1 reports"] s2 1 by (simp add: cb)
  show ?thesis
    using 2 de [of "''gdrive''" "file_drivePath fi" w2]
    by (simp add: downloadFileToDestination_def Some d1 [simplified] s2 msg split: sum.splits)
qed

lemma downloadFileToDestination_other_slots:
  "sid \<noteq> d \<Longrightarrow> slots_of (downloadFileToDestination E job fi d w) j sid = slots_of w j sid"
  by (rule downloadFileToDestination_keeps [where Q = "\<lambda>v. slots_of v j sid"])
    (erule rest_slots, erule bfdp_other_slots)

subsection \<open>The steps of \<open>processItem\<close>\<close>

lemma rest_announced: "rest_of w' = rest_of w \<Longrightarrow> announced w' = announced w"
  by (simp add: rest_of_def announced_def)

lemma announced_progress [simp]: "announced (broadcastProgress j i p st w) = announced w"
  by (simp add: announced_def broadcastProgress_def List.map_filter_def)

lemma announced_uploaded [simp]:
  "announced (broadcastFileUploaded j f w) = announced w @ [file_fileName f]"
  by (simp add: announced_def broadcastFileUploaded_def Let_def List.map_filter_def)


lemma fst_in_world [simp]: "fst (snd (in_world m s)) = fst s"
  by (simp add: in_world_def split: prod.splits)

lemma snd_in_world: "snd (snd (in_world m s)) = snd (m (snd s))"
  by (simp add: in_world_def split: prod.splits)

lemma fst_update_world [simp]: "fst (update_world f s) = fst s"
  by (simp add: update_world_def)

lemma snd_update_world [simp]: "snd (update_world f s) = f (snd s)"
  by (simp add: update_world_def)

lemma snd_update_item [simp]: "snd (update_item k f s) = snd s"
  by (simp add: update_item_def)

lemma fst_item_progress [simp]: "fst (item_progress k p st s) = fst s"
  by (simp add: item_progress_def)

lemma announced_item_progress [simp]:
  "announced (snd (item_progress k p st s)) = announced (snd s)"
  by (simp add: item_progress_def)

lemma quiet_in_world:
  assumes "quiet k Q" and "\<And>v. rest_of (snd (m v)) = rest_of v"
  shows "Q (snd (in_world m s)) = Q s"
proof -
  have "fst (snd (in_world m s)) = fst s" by simp
  moreover have "rest_of (snd (snd (in_world m s))) = rest_of (snd s)"
    by (simp add: snd_in_world assms(2))
  ultimately show ?thesis
    using assms(1) unfolding quiet_def by blast
qed

lemma quiet_exec: "quiet k Q \<Longrightarrow> Q (snd (in_world (exec E c cmd) s)) = Q s"
  by (rule quiet_in_world) (simp_all add: exec_rest)

lemma quiet_execWithProgress: "quiet k Q \<Longrightarrow> Q (snd (in_world (execWithProgress E c cmd) s)) = Q s"
  by (rule quiet_in_world) (simp_all add: execWithProgress_rest)

lemma quiet_upload: "quiet k Q \<Longrightarrow> Q (snd (in_world (upload E c sp rn rp) s)) = Q s"
  by (rule quiet_in_world) (simp_all add: upload_rest)

lemma quiet_item_progress: "quiet k Q \<Longrightarrow> Q (item_progress k p st s) = Q s"
  unfolding quiet_def by blast

lemma quiet_update_item:
  "quiet k Q \<Longrightarrow> (\<And>x. blank (f x) = blank x) \<Longrightarrow> Q (update_item k f s) = Q s"
  unfolding quiet_def by blast

lemma quiet_stat_size: "quiet k Q \<Longrightarrow> Q (snd (stat_size E c target s)) = Q s"
  using quiet_exec [of k Q E c "Stat_size target" s]
  by (auto simp: stat_size_def split: prod.splits sum.splits)

lemma blank_progress_speed [simp]: "blank (it\<lparr>progress := p, speed := sp\<rparr>) = blank it"
  by (simp add: blank_def)

lemma blank_status [simp]: "blank (it\<lparr>status := st\<rparr>) = blank it"
  by (simp add: blank_def)

lemma blank_status_progress [simp]: "blank (it\<lparr>status := st, progress := p\<rparr>) = blank it"
  by (simp add: blank_def)

lemma blank_status_error [simp]: "blank (it\<lparr>status := st, error := e\<rparr>) = blank it"
  by (simp add: blank_def)

lemma quiet_upload_callback:
  assumes "quiet k Q"
  shows "Q (upload_callback k i n s report) = Q s"
  unfolding upload_callback_def
  by (simp only: quiet_item_progress [OF assms])
    (rule quiet_update_item [OF assms], simp)

lemma quiet_upload_callbacks:
  assumes "quiet k Q"
  shows "Q (foldl (upload_callback k i n) s reports) = Q s"
  by (induction reports arbitrary: s) (simp_all add: quiet_upload_callback [OF assms])




lemma quiet_announced: "quiet k (\<lambda>s. announced (snd s))"
  unfolding quiet_def
proof (intro conjI allI impI)
  fix s s' :: pstate
  assume "fst s' = fst s \<and> rest_of (snd s') = rest_of (snd s)"
  then show "announced (snd s') = announced (snd s)" by (intro rest_announced) simp
next
  fix s :: pstate and p st
  show "announced (snd (item_progress k p st s)) = announced (snd s)" by simp
next
  fix s :: pstate and f
  show "announced (snd (update_item k f s)) = announced (snd s)" by simp
next
  fix s :: pstate and n
  show "announced (snd (set_actualParts n s)) = announced (snd s)"
    by (simp add: set_actualParts_def)
next
  fix s :: pstate and job
  show "announced (snd (update_world (saveJob job) s)) = announced (snd s)"
    by (simp add: saveJob_def announced_def)
qed



lemma bindE_keeps:
  assumes "\<And>v. Q (snd (m v)) = Q v" and "\<And>x v. Q (snd (f x v)) = Q v"
  shows "Q (snd (bindE m f s)) = Q s"
  using assms(1) [of s] assms(2) by (auto simp: bindE_def split: prod.splits sum.splits)

lemma bindE_Inr:
  "bindE m f s = (Inr y, s') \<Longrightarrow> \<exists>x s1. m s = (Inr x, s1) \<and> f x s1 = (Inr y, s')"
  by (auto simp: bindE_def split: prod.splits sum.splits)

text \<open>Announcing a part adds its name; everything else in \<open>publish_part\<close> is quiet.\<close>

lemma publish_part_announced:
  "announced (snd (snd (publish_part E sid k n baseName i zipSize s)))
    = announced (snd s) @ [partFileName n i baseName]"
proof -
  note q = quiet_announced [of k]
  let ?partFile = "partFileName n i baseName"
  let ?s1 = "item_progress k (js_round (js_mul (js_div (of_nat i) (of_nat n)) 100)) Uploading
               (update_item k (\<lambda>it. it\<lparr>status := Uploading\<rparr>) s)"
  obtain res reports s2 where up:
    "in_world (upload E sid (''/tmp/'' @ ?partFile) ''gdrive'' (driveFolder (fst s) @ ''/'' @ ?partFile)) ?s1
      = ((res, reports), s2)"
    by (metis prod.collapse)
  have 1: "announced (snd ?s1) = announced (snd s)" by simp
  have 2: "announced (snd s2) = announced (snd s)"
    using quiet_upload [OF q, of E sid "''/tmp/'' @ ?partFile" "''gdrive''"
        "driveFolder (fst s) @ ''/'' @ ?partFile" ?s1] up 1 by simp
  have 3: "announced (snd (foldl (upload_callback k i n) s2 reports)) = announced (snd s)"
    using quiet_upload_callbacks [OF q, of i n s2 reports] 2 by simp
  have rm: "announced (snd (snd (bindE (in_world (exec E sid cmd)) (\<lambda>r s'. (Inr (), s')) v)))
      = announced (snd v)" for cmd v
    by (rule bindE_keeps [where Q = "\<lambda>s. announced (snd s)"]) (simp_all add: quiet_exec [OF q])
  show ?thesis
    unfolding publish_part_def Let_def
    by (simp add: up [simplified] 3 rm)
qed









subsection \<open>Retry\<close>


lemma findIndex_None: "findIndex P xs = None \<Longrightarrow> \<forall>x \<in> set xs. \<not> P x"
  by (induction xs) (auto split: if_splits option.splits)



subsection \<open>The archive names of a split run\<close>

lemma quiet_exec_result:
  "quiet k Q \<Longrightarrow> in_world (exec E c cmd) s = (r, s') \<Longrightarrow> Q s' = Q s"
  using quiet_exec [of k Q E c cmd s] by simp

lemma quiet_execWithProgress_result:
  "quiet k Q \<Longrightarrow> in_world (execWithProgress E c cmd) s = (r, s') \<Longrightarrow> Q s' = Q s"
  using quiet_execWithProgress [of k Q E c cmd s] by simp

lemma quiet_stat_size_result:
  "quiet k Q \<Longrightarrow> stat_size E c target s = (z, s') \<Longrightarrow> Q s' = Q s"
  using quiet_stat_size [of k Q E c target s] by simp

lemma process_part_announced:
  assumes "process_part E sid k n baseName i batch s = (Inr (), s')"
  shows "announced (snd s') = announced (snd s) @ [partFileName n i baseName]"
proof -
  note q = quiet_announced [of k]
  let ?partPath = "''/tmp/'' @ partFileName n i baseName"
  let ?listPath = "''/tmp/'' @ baseName @ ''_batch'' @ partNum i @ ''.txt''"
  from assms obtain r1 s1 where
    1: "in_world (exec E sid (Write_filelist ?listPath (join newline (map relativePath batch)))) s
          = (Inr r1, s1)"
    and rest1: "bindE (in_world (execWithProgress E sid (Zip_batch (sourceFolder (fst s)) ?partPath ?listPath)))
          (\<lambda>r2. bindE (in_world (exec E sid (Rm_f ?listPath)))
            (\<lambda>r3 s'. case stat_size E sid ?partPath s' of
               (zipSize, s'') \<Rightarrow> publish_part E sid k n baseName i zipSize s'')) s1 = (Inr (), s')"
    unfolding process_part_def Let_def by (blast dest: bindE_Inr)
  from bindE_Inr [OF rest1] obtain r2 s2 where
    2: "in_world (execWithProgress E sid (Zip_batch (sourceFolder (fst s)) ?partPath ?listPath)) s1
          = (Inr r2, s2)"
    and rest2: "bindE (in_world (exec E sid (Rm_f ?listPath)))
            (\<lambda>r3 s'. case stat_size E sid ?partPath s' of
               (zipSize, s'') \<Rightarrow> publish_part E sid k n baseName i zipSize s'') s2 = (Inr (), s')"
    by blast
  from bindE_Inr [OF rest2] obtain r3 s3 where
    3: "in_world (exec E sid (Rm_f ?listPath)) s2 = (Inr r3, s3)"
    and rest3: "(case stat_size E sid ?partPath s3 of
               (zipSize, s'') \<Rightarrow> publish_part E sid k n baseName i zipSize s'') = (Inr (), s')"
    by blast
  obtain zipSize s4 where 4: "stat_size E sid ?partPath s3 = (zipSize, s4)"
    by (metis prod.collapse)
  from rest3 4 have 5: "publish_part E sid k n baseName i zipSize s4 = (Inr (), s')" by simp
  have a1: "announced (snd s1) = announced (snd s)"
    by (rule quiet_exec_result [OF q 1])
  have a2: "announced (snd s2) = announced (snd s1)"
    by (rule quiet_execWithProgress_result [OF q 2])
  have a3: "announced (snd s3) = announced (snd s2)"
    by (rule quiet_exec_result [OF q 3])
  have a4: "announced (snd s4) = announced (snd s3)"
    by (rule quiet_stat_size_result [OF q 4])
  have "announced (snd s') = announced (snd s4) @ [partFileName n i baseName]"
    using publish_part_announced [of E sid k n baseName i zipSize s4] 5 by simp
  with a1 a2 a3 a4 show ?thesis by simp
qed

lemma process_parts_announced:
  "process_parts E sid k n baseName i batches s = (Inr (), s')
    \<Longrightarrow> announced (snd s')
        = announced (snd s) @ map (\<lambda>j. partFileName n j baseName) [i ..< i + length batches]"
proof (induction batches arbitrary: i s)
  case Nil
  then show ?case by simp
next
  case (Cons batch rest)
  from Cons.prems obtain s1 where
    1: "process_part E sid k n baseName i batch s = (Inr (), s1)"
    and 2: "process_parts E sid k n baseName (Suc i) rest s1 = (Inr (), s')"
    by (auto split: prod.splits sum.splits)
  have "[i ..< i + length (batch # rest)] = i # [Suc i ..< Suc i + length rest]"
    by (simp add: upt_rec)
  with process_part_announced [OF 1] Cons.IH [OF 2] show ?case by simp
qed

lemma process_split_announced:
  assumes "process_split E sid k zi limitBytes s = (Inr (), s')"
    and "exec E sid (Find_files (sourceFolder (fst s))) (snd s) = (Inr (out, err), w1)"
  shows "announced (snd s')
      = announced (snd s)
        @ map (\<lambda>j. partFileName
                      (length (group_batches limitBytes (parse_files (sourceFolder (fst s)) out))) j
                      (baseZipName zi))
            [0 ..< length (group_batches limitBytes (parse_files (sourceFolder (fst s)) out))]"
proof -
  let ?batches = "group_batches limitBytes (parse_files (sourceFolder (fst s)) out)"
  have found: "in_world (exec E sid (Find_files (sourceFolder (fst s)))) s = (Inr (out, err), (fst s, w1))"
    using assms(2) by (simp add: in_world_def)
  have run: "process_parts E sid k (length ?batches) (baseZipName zi) 0 ?batches
      (set_actualParts (length ?batches) (fst s, w1)) = (Inr (), s')"
    using assms(1) unfolding process_split_def by (simp add: bindE_def found Let_def)
  have "announced (snd (set_actualParts (length ?batches) (fst s, w1))) = announced w1"
    by (simp add: set_actualParts_def)
  moreover have "announced w1 = announced (snd s)"
    using exec_rest [of E sid "Find_files (sourceFolder (fst s))" "snd s"] assms(2)
    by (intro rest_announced) simp
  ultimately show ?thesis
    using process_parts_announced [OF run] by simp
qed

subsection \<open>The part number\<close>

lemma digits_val_snoc: "digits_val (ds @ [c]) = 10 * digits_val ds + digit_val c"
  by (simp add: digits_val_def)

lemma digit_val_digit_char: "d < 10 \<Longrightarrow> digit_val (digit_char d) = d"
proof -
  assume "d < 10"
  then have "d \<in> {0, 1, 2, 3, 4, 5, 6, 7, 8, 9}" by auto
  then show ?thesis
    by (auto simp: digit_val_def digit_char_def)
qed

lemma digits_val_string_of_nat: "digits_val (string_of_nat n) = n"
proof (induction n rule: string_of_nat.induct)
  case (1 n)
  show ?case
  proof (cases "n < 10")
    case True
    then show ?thesis
      by (subst string_of_nat.simps) (simp add: digits_val_def digit_val_digit_char)
  next
    case False
    with 1 have "digits_val (string_of_nat (n div 10)) = n div 10" by simp
    with False show ?thesis
      by (subst string_of_nat.simps) (simp add: digits_val_snoc digit_val_digit_char)
  qed
qed

lemma digit_val_zero: "digit_val (CHR ''0'') = 0"
  by (simp add: digit_val_def)

lemma digits_val_zeros: "digits_val (replicate m (CHR ''0'') @ ds) = digits_val ds"
proof -
  have "foldl (\<lambda>a c. 10 * a + digit_val c) 0 (replicate m (CHR ''0'')) = 0"
    by (induction m) (simp_all add: digit_val_zero)
  then show ?thesis by (simp add: digits_val_def)
qed

lemma length_string_of_nat: "n < 1000 \<Longrightarrow> length (string_of_nat n) \<le> 3"
  by (subst string_of_nat.simps, subst string_of_nat.simps, subst string_of_nat.simps) auto

lemma partNum_value: "digits_val (partNum i) = i + 1"
  by (simp add: partNum_def padStart_def digits_val_zeros digits_val_string_of_nat)

lemma partNum_length: "i < 999 \<Longrightarrow> length (partNum i) = 3"
  using length_string_of_nat [of "i + 1"] by (simp add: partNum_def padStart_def)

subsection \<open>Rounding to a double\<close>

lemma bit_length_bounds:
  "0 < n \<Longrightarrow> (2::nat) ^ (bit_length n - 1) \<le> n \<and> n < 2 ^ bit_length n"
proof (induction n rule: bit_length.induct)
  case (1 n)
  show ?case
  proof (cases "n div 2 = 0")
    case True
    with 1(2) have "n = 1" by (simp add: div_eq_0_iff) 
    then show ?thesis by (simp add: bit_length.simps)
  next
    case False
    then have pos: "0 < n div 2" by simp
    from 1(1) [OF _ pos] 1(2)
    have ih: "2 ^ (bit_length (n div 2) - 1) \<le> n div 2" "n div 2 < 2 ^ bit_length (n div 2)"
      by simp_all
    have bl: "bit_length n = Suc (bit_length (n div 2))"
      using 1(2) by (subst bit_length.simps) simp
    have "0 < bit_length (n div 2)"
      using pos by (subst bit_length.simps) simp
    then have eq: "(2::nat) ^ bit_length (n div 2) = 2 * 2 ^ (bit_length (n div 2) - 1)"
      by (cases "bit_length (n div 2)") simp_all
    have "2 * 2 ^ (bit_length (n div 2) - 1) \<le> n"
      using ih(1) by linarith
    moreover have "n < 2 * 2 ^ bit_length (n div 2)"
      using ih(2) by linarith
    ultimately show ?thesis by (simp add: bl eq)
  qed
qed

lemma bit_length_pos: "0 < n \<Longrightarrow> 0 < bit_length n"
  by (subst bit_length.simps) simp

lemma expo_bounds:
  assumes "0 < x"
  shows "2 powi expo x \<le> x \<and> x < 2 powi (expo x + 1)"
proof (cases "1 \<le> x")
  case True
  let ?a = "nat \<lfloor>x\<rfloor>"
  from True have a: "0 < ?a" by simp
  have e: "expo x = int (bit_length ?a - 1)"
    using bit_length_pos [OF a] True by (simp add: expo_def)
  have e1: "expo x + 1 = int (bit_length ?a)"
    using bit_length_pos [OF a] True by (simp add: expo_def)
  from bit_length_bounds [OF a]
  have lo: "2 ^ (bit_length ?a - 1) \<le> ?a" and hi: "?a < 2 ^ bit_length ?a" by simp_all
  have p1: "(of_nat ?a :: rat) \<le> x" using True by simp
  have p2: "(2::rat) ^ (bit_length ?a - 1) \<le> of_nat ?a"
    using lo by (metis of_nat_le_iff of_nat_numeral of_nat_power)
  have "2 powi expo x = (2::rat) ^ (bit_length ?a - 1)"
    unfolding e by (rule power_int_of_nat)
  with order_trans [OF p2 p1] have 1: "2 powi expo x \<le> x" by simp
  have p3: "x < of_nat (?a + 1)" using True by simp linarith
  have p4: "(of_nat (?a + 1) :: rat) \<le> 2 ^ bit_length ?a"
    using hi by (metis Suc_eq_plus1 Suc_leI of_nat_le_iff of_nat_numeral of_nat_power)
  have "2 powi (expo x + 1) = (2::rat) ^ bit_length ?a"
    unfolding e1 by (rule power_int_of_nat)
  with less_le_trans [OF p3 p4] have 2: "x < 2 powi (expo x + 1)" by simp
  from 1 2 show ?thesis by simp
next
  case False
  let ?y = "1 / x"
  let ?b = "nat (\<lceil>?y\<rceil> - 1)"
  from False assms have y1: "1 < ?y" by simp
  then have c2: "2 \<le> \<lceil>?y\<rceil>" by linarith
  then have b: "0 < ?b" by simp
  have e: "expo x = - int (bit_length ?b)"
    using False by (simp add: expo_def)
  from bit_length_bounds [OF b]
  have lo: "2 ^ (bit_length ?b - 1) \<le> ?b" and hi: "?b < 2 ^ bit_length ?b" by simp_all
  have "?y \<le> of_int \<lceil>?y\<rceil>" by simp
  also have "of_int \<lceil>?y\<rceil> = (of_nat (?b + 1) :: rat)"
  proof -
    have "int (?b + 1) = \<lceil>?y\<rceil>" using c2 by linarith
    then show ?thesis by (metis of_int_of_nat_eq)
  qed
  also have "\<dots> \<le> 2 ^ bit_length ?b"
    using hi by (metis Suc_eq_plus1 Suc_leI of_nat_le_iff of_nat_numeral of_nat_power)
  finally have "?y \<le> 2 ^ bit_length ?b" .
  then have "1 \<le> 2 ^ bit_length ?b * x"
    using assms by (simp add: field_simps)
  then have 1: "2 powi expo x \<le> x"
    by (simp add: e power_int_minus field_simps)
  have "(2::rat) ^ (bit_length ?b - 1) \<le> of_nat ?b"
    using lo by (metis of_nat_le_iff of_nat_numeral of_nat_power)
  also have "(of_nat ?b :: rat) = of_int (\<lceil>?y\<rceil> - 1)"
  proof -
    have "int ?b = \<lceil>?y\<rceil> - 1" using c2 by linarith
    then show ?thesis by (metis of_int_of_nat_eq)
  qed
  also have "\<dots> < ?y" by linarith
  finally have "2 ^ (bit_length ?b - 1) * x < 1"
    using assms by (simp add: field_simps)
  moreover have "expo x + 1 = - int (bit_length ?b - 1)"
    using bit_length_pos [OF b] by (simp add: e)
  ultimately have 2: "x < 2 powi (expo x + 1)"
    by (simp add: power_int_minus field_simps)
  from 1 2 show ?thesis by simp
qed

lemma round_half_even_near: "\<bar>of_int (round_half_even m) - m\<bar> \<le> 1 / 2"
proof -
  define f where "f = \<lfloor>m\<rfloor>"
  have "of_int f \<le> m" "m < of_int f + 1" unfolding f_def by linarith+
  then show ?thesis
    unfolding round_half_even_def Let_def f_def [symmetric]
    by (auto simp: abs_if)
qed

lemma to_double_error:
  assumes "0 \<le> x"
  shows "\<bar>to_double x - x\<bar> \<le> x * unit_roundoff"
proof (cases "x = 0")
  case True
  then show ?thesis by (simp add: to_double_def)
next
  case False
  with assms have pos: "0 < x" by simp
  define ulp :: rat where "ulp = 2 powi (expo x - 52)"
  define r where "r = round_half_even (x / ulp)"
  have ulp_pos: "0 < ulp" by (simp add: ulp_def)
  have td: "to_double x = of_int r * ulp"
    using pos by (simp add: to_double_def nearest_double_def Let_def ulp_def r_def)
  have "\<bar>of_int r - x / ulp\<bar> \<le> 1 / 2"
    unfolding r_def by (rule round_half_even_near)
  then have "\<bar>of_int r - x / ulp\<bar> * ulp \<le> 1 / 2 * ulp"
    using ulp_pos by (intro mult_right_mono) simp_all
  moreover have "\<bar>of_int r - x / ulp\<bar> * ulp = \<bar>of_int r * ulp - x\<bar>"
    using ulp_pos by (simp add: abs_mult [symmetric] field_simps del: abs_mult)
  ultimately have near: "\<bar>to_double x - x\<bar> \<le> ulp / 2" by (simp add: td)
  have "ulp = 2 powi expo x / 2 ^ 52"
    unfolding ulp_def by (simp add: power_int_diff)
  moreover have "2 powi expo x \<le> x"
    using expo_bounds [OF pos] by simp
  ultimately have "ulp / 2 \<le> x * unit_roundoff"
    by (simp add: field_simps unit_roundoff_def)
  with near show ?thesis by linarith
qed

lemma unit_roundoff_bounds: "0 \<le> unit_roundoff" "unit_roundoff \<le> 1"
  by (simp_all add: unit_roundoff_def)

lemma to_double_scales:
  assumes "0 \<le> x" and "x * (1 - unit_roundoff) ^ k \<le> v" and "v \<le> x * (1 + unit_roundoff) ^ k"
  shows "x * (1 - unit_roundoff) ^ Suc k \<le> to_double v
    \<and> to_double v \<le> x * (1 + unit_roundoff) ^ Suc k"
proof -
  note u = unit_roundoff_bounds
  have "0 \<le> x * (1 - unit_roundoff) ^ k"
    using assms(1) u by (intro mult_nonneg_nonneg zero_le_power) simp_all
  with assms(2) have v: "0 \<le> v" by linarith
  from to_double_error [OF v]
  have lo: "v * (1 - unit_roundoff) \<le> to_double v"
    and hi: "to_double v \<le> v * (1 + unit_roundoff)"
    by (simp_all add: abs_le_iff algebra_simps)
  have "x * (1 - unit_roundoff) ^ k * (1 - unit_roundoff) \<le> v * (1 - unit_roundoff)"
    using assms(2) u by (intro mult_right_mono) simp_all
  moreover have "v * (1 + unit_roundoff) \<le> x * (1 + unit_roundoff) ^ k * (1 + unit_roundoff)"
    using assms(3) u by (intro mult_right_mono) simp_all
  ultimately show ?thesis
    using lo hi by (simp add: mult.assoc mult.commute [of "1 - unit_roundoff"]
        mult.commute [of "1 + unit_roundoff"])
qed

lemma overallPercent_error:
  assumes "0 < n"
  shows "\<bar>js_mul (js_div (js_add (of_nat i) (js_div (of_nat p) 100)) (of_nat n)) 100
           - ((of_nat i + of_nat p / 100) / of_nat n) * 100\<bar>
         \<le> ((of_nat i + of_nat p / 100) / of_nat n) * 100 * (5 / 2 ^ 53)"
proof -
  define L H :: rat where "L = 1 - unit_roundoff" and "H = 1 + unit_roundoff"
  note scale = to_double_scales [folded L_def H_def]
  have L: "0 \<le> L" "L \<le> 1" and H: "1 \<le> H"
    using unit_roundoff_bounds by (simp_all add: L_def H_def)
  define q :: rat where "q = of_nat p / 100"
  define j :: rat where "j = of_nat i"
  define m :: rat where "m = of_nat n"
  have q: "0 \<le> q" and j: "0 \<le> j" and m: "0 < m"
    using assms by (simp_all add: q_def j_def m_def)
  define a where "a = js_div (of_nat p) 100"
  define b where "b = js_add j a"
  define c where "c = js_div b m"
  define d where "d = js_mul c 100"
  have a: "q * L ^ 1 \<le> a \<and> a \<le> q * H ^ 1"
    unfolding a_def js_div_def q_def [symmetric]
    using scale [OF q, of 0 q] by simp
  have "j * L \<le> j" "j \<le> j * H"
    using j L H by (simp_all add: mult_left_le mult_le_cancel_left1)
  with a have b0: "(j + q) * L ^ 1 \<le> j + a \<and> j + a \<le> (j + q) * H ^ 1"
    by (simp add: distrib_right)
  have jq: "0 \<le> j + q" using j q by simp
  have b: "(j + q) * L ^ 2 \<le> b \<and> b \<le> (j + q) * H ^ 2"
    unfolding b_def js_add_def
    using scale [OF jq, of 1 "j + a"] b0 by (simp add: numeral_2_eq_2)
  define y where "y = (j + q) / m"
  have y: "0 \<le> y" using jq m by (simp add: y_def)
  have "(j + q) * L ^ 2 / m \<le> b / m" "b / m \<le> (j + q) * H ^ 2 / m"
    using b m by (simp_all add: divide_right_mono)
  then have c0: "y * L ^ 2 \<le> b / m \<and> b / m \<le> y * H ^ 2"
    by (simp add: y_def)
  have c: "y * L ^ 3 \<le> c \<and> c \<le> y * H ^ 3"
    unfolding c_def js_div_def
    using scale [OF y, of 2 "b / m"] c0 by (simp add: numeral_3_eq_3 numeral_2_eq_2)
  define x where "x = y * 100"
  have x: "0 \<le> x" unfolding x_def using y by simp
  have "y * L ^ 3 * 100 \<le> c * 100" "c * 100 \<le> y * H ^ 3 * 100"
    using c by simp_all
  then have d0: "x * L ^ 3 \<le> c * 100 \<and> c * 100 \<le> x * H ^ 3"
    by (simp add: x_def mult.assoc mult.commute [of 100])
  have d: "x * L ^ 4 \<le> d \<and> d \<le> x * H ^ 4"
    unfolding d_def js_mul_def
    using scale [OF x, of 3 "c * 100"] d0 by (simp add: eval_nat_numeral)
  define eps :: rat where "eps = 5 / 2 ^ 53"
  have L4: "1 - eps \<le> L ^ 4"
    by (simp add: L_def unit_roundoff_def eps_def eval_nat_numeral)
  have H4: "H ^ 4 \<le> 1 + eps"
    by (simp add: H_def unit_roundoff_def eps_def eval_nat_numeral)
  have "x * (1 - eps) \<le> x * L ^ 4"
    using L4 x by (rule mult_left_mono)
  moreover have "x * H ^ 4 \<le> x * (1 + eps)"
    using H4 x by (rule mult_left_mono)
  ultimately have "x * (1 - eps) \<le> d" "d \<le> x * (1 + eps)"
    using d by linarith+
  then have "\<bar>d - x\<bar> \<le> x * eps"
    by (simp add: abs_le_iff algebra_simps)
  then have "\<bar>d - x\<bar> \<le> x * (5 / 2 ^ 53)"
    unfolding eps_def .
  then show ?thesis
    by (simp add: d_def c_def b_def a_def x_def y_def j_def q_def m_def)
qed

text \<open>
  Two values that the exact quotient would round the other way: \<open>((0 + 29 / 100) / 2) * 100\<close>
  is \<open>14.499999999999998\<close> on doubles, and \<open>(23 / 40) * 100\<close> is \<open>57.49999999999999\<close>.
\<close>

lemma overallPercent_below_a_half:
  "overallPercent 0 29 2 = 14 \<and> \<lfloor>((0 + 29 / 100) / 2) * 100 + 1 / 2 :: rat\<rfloor> = 15"
  by code_simp

lemma part_start_below_a_half:
  "js_round (js_mul (js_div 23 40) 100) = 57 \<and> \<lfloor>(23 / 40) * 100 + 1 / 2 :: rat\<rfloor> = 58"
  by code_simp

subsection \<open>The run of \<open>processItem\<close>\<close>










lemma plain_progress_speed [simp]: "plain (it\<lparr>progress := p, speed := sp\<rparr>) = plain it"
  by (simp add: plain_def)

lemma plain_status [simp]: "plain (it\<lparr>status := st\<rparr>) = plain it"
  by (simp add: plain_def)

lemma plain_status_progress [simp]: "plain (it\<lparr>status := st, progress := p\<rparr>) = plain it"
  by (simp add: plain_def)























lemma length_update_first [simp]: "length (update_first P f xs) = length xs"
  by (induction xs) simp_all


subsection \<open>Evaluating the example runs\<close>

text \<open>The definitions that evaluating an example run unfolds.\<close>

lemmas demo_defs = demo_env_def demo_job_def demo_world_def demo_server_def demo_slots_def
  demo_single_def demo_archive_def demo_split_def demo_part_def demo_polls_def demo_env_refused_def
  demo_source_env_def demo_lone_job_def demo_lone_archive_def demo_pair_env_def demo_world_src_def demo_failed_item_def demo_stored_job_def demo_world_retry_def
  demo_world_offline_def

lemmas run_defs = getServerById_def connect_def exec_def execWithProgress_def
  stream_text_def trim_def is_space_def no_connection_def
  checkInstalled_def install_def copyConfigToServer_def upload_def download_def delete_def
  progress_reports_def List.map_filter_def bindE_def percentMatch.simps is_digit_def
  broadcastFileUploaded_def broadcastFileDestinationProgress_def set_destination_def job_files_def
  stage_part_def download_callback_def downloadFileToDestination_def processFile_def
  bulkExtract_def bulkExtractAll_def complete_items_def downloadWorker_def broadcastProgress_def
  prepareDestinationServer_def Let_def

lemmas item_defs = prepareSourceFiles_def new_item_def processItem_def package_and_upload_def
  process_split_def process_single_def process_part_def publish_part_def stat_size_def
  set_actualParts_def upload_callback_def single_callback_def item_progress_def update_item_def
  update_world_def in_world_def the_item_def pending_destinations_def saveJob_def
  parse_files_def parse_line_def group_batches_def partFileName_def partNum_def padStart_def
  parseInt_def or_zero_def digits_val_def digit_val_def digit_char_def string_of_nat.simps
  strip_leading_slash_def startsWith_def newline_def
  retryItem_def reset_item_def getJobById_def announced_def

section \<open>Claims on the batches\<close>

text \<open>
  C1. For every list of enumerated source files and every limit \<open>B\<close> in bytes, each batch
  the splitting loop produces has total size at most \<open>B\<close> or consists of exactly one
  file; a file larger than \<open>B\<close> is always a batch of its own.
\<close>

theorem C1_batch_within_limit_or_singleton:
  "(\<forall>b \<in> set (group_batches B files). batch_size b \<le> B \<or> length b = 1)
    \<and> (\<forall>f \<in> set files. B < file_size f \<longrightarrow> [f] \<in> set (group_batches B files))"
proof -
  obtain bs c s where loop: "batch_loop B files [] [] 0 = (bs, c, s)"
    by (metis prod_cases3)
  have inv: "list_all (batch_ok B) bs \<and> s = batch_size c \<and> (c = [] \<or> batch_size c \<le> B)"
    by (rule batch_loop_ok [OF loop]) (simp_all add: batch_size_def)
  have res: "group_batches B files = (if c = [] then bs else bs @ [c])"
    by (simp add: group_batches_def loop)
  have "list_all (batch_ok B) (group_batches B files)"
    using inv by (auto simp: res batch_ok_def)
  then have first: "\<forall>b \<in> set (group_batches B files). batch_size b \<le> B \<or> length b = 1"
    by (simp add: list_all_iff batch_ok_def)
  have "\<forall>f \<in> set files. B < file_size f \<longrightarrow> [f] \<in> set bs"
    using batch_loop_oversized [OF loop] by blast
  then have second: "\<forall>f \<in> set files. B < file_size f \<longrightarrow> [f] \<in> set (group_batches B files)"
    by (simp add: res)
  from first second show ?thesis by blast
qed

text \<open>
  The claim at the listing \<open>a = 800\<close>, \<open>b = 2048\<close>, \<open>c = 100\<close> with limit
  \<open>1024\<close>: the oversized \<open>b\<close> is a batch of its own and the two others stay within
  the limit.
\<close>

theorem C1_batch_within_limit_or_singleton_witness:
  "[\<lparr>file_size = 2048, file_path = ''/src/b'', relativePath = ''b''\<rparr>]
      \<in> set (group_batches 1024
          [\<lparr>file_size = 800, file_path = ''/src/a'', relativePath = ''a''\<rparr>,
           \<lparr>file_size = 2048, file_path = ''/src/b'', relativePath = ''b''\<rparr>,
           \<lparr>file_size = 100, file_path = ''/src/c'', relativePath = ''c''\<rparr>])
    \<and> (batch_size [\<lparr>file_size = 800, file_path = ''/src/a'', relativePath = ''a''\<rparr>] \<le> 1024
        \<or> length [\<lparr>file_size = 800, file_path = ''/src/a'', relativePath = ''a''\<rparr>] = 1)"
  using C1_batch_within_limit_or_singleton [of 1024
      "[\<lparr>file_size = 800, file_path = ''/src/a'', relativePath = ''a''\<rparr>,
        \<lparr>file_size = 2048, file_path = ''/src/b'', relativePath = ''b''\<rparr>,
        \<lparr>file_size = 100, file_path = ''/src/c'', relativePath = ''c''\<rparr>]"]
  by (simp add: group_batches_def batch_size_def)

text \<open>
  C2. The batches, concatenated in order, are the listed files exactly: every file is in
  exactly one batch, in listing order, so a later file is never packed into an earlier
  batch. No batch is empty.
\<close>

theorem C2_batches_partition_files_in_order:
  "concat (group_batches B files) = files \<and> [] \<notin> set (group_batches B files)"
proof -
  obtain bs c s where loop: "batch_loop B files [] [] 0 = (bs, c, s)"
    by (metis prod_cases3)
  have res: "group_batches B files = (if c = [] then bs else bs @ [c])"
    by (simp add: group_batches_def loop)
  have "concat bs @ c = files"
    using batch_loop_concat [OF loop] by simp
  moreover have "[] \<notin> set bs"
    using batch_loop_nonempty [OF loop] by simp
  ultimately show ?thesis
    by (auto simp: res)
qed

text \<open>
  The listing \<open>a = 800\<close>, \<open>b = 2048\<close>, \<open>c = 100\<close> with limit \<open>1024\<close> gives the
  batches \<open>[a]\<close>, \<open>[b]\<close>, \<open>[c]\<close>: \<open>c\<close> would fit beside \<open>a\<close> and is not put
  there.
\<close>

lemma group_batches_keeps_order_example:
  "group_batches 1024
     [\<lparr>file_size = 800, file_path = ''/src/a'', relativePath = ''a''\<rparr>,
      \<lparr>file_size = 2048, file_path = ''/src/b'', relativePath = ''b''\<rparr>,
      \<lparr>file_size = 100, file_path = ''/src/c'', relativePath = ''c''\<rparr>]
   = [[\<lparr>file_size = 800, file_path = ''/src/a'', relativePath = ''a''\<rparr>],
      [\<lparr>file_size = 2048, file_path = ''/src/b'', relativePath = ''b''\<rparr>],
      [\<lparr>file_size = 100, file_path = ''/src/c'', relativePath = ''c''\<rparr>]]"
  by (simp add: group_batches_def)

section \<open>Claims on the destinations\<close>

text \<open>
  C3. If preparing a destination host fails, every slot of that destination is marked
  failed with the preparation error, no download is attempted on that destination, and
  the other destinations complete all their parts.

  The code misses this. \<open>prepareDestinationServer\<close> wraps its steps in a \<open>try\<close> whose
  \<open>catch\<close> logs the failure and rethrows, but \<open>connect\<close>, \<open>install\<close> and
  \<open>copyConfigToServer\<close> report a failure in their result and do not throw, and the
  results are not read. In the example the installation of rclone on \<open>d2\<close> fails
  (\<open>install\<close> reports \<open>Installation verification failed\<close>): the preparation of the
  destinations returns normally, the download of the archive is started on \<open>d2\<close> like on
  \<open>d1\<close>, and the slot of \<open>d2\<close> ends \<open>completed\<close>, not \<open>failed\<close>.
\<close>

theorem C3_failed_preparation_is_ignored:
  "fst (install demo_env ''d2'' (snd (connect demo_env (demo_server ''d2'') demo_world)))
     = (False, Some ''Installation verification failed'')
   \<and> fst (prepareDestinations demo_env demo_single [''d1'', ''d2''] demo_world) = Inr ()
   \<and> map_option
         (\<lambda>s. (filter (\<lambda>c. fst c = ''d2'') (commands (snd s)),
               map (\<lambda>f. map (\<lambda>d. (serverId d, dest_status d, dest_error d)) (destinations f))
                 (job_files (snd s) ''job1'')))
         (downloadWorker demo_env (demo_polls [demo_archive])
            (demo_single,
             snd (prepareDestinations demo_env demo_single [''d1'', ''d2''] demo_world)))
     = Some ([(''d2'', Rclone_version), (''d2'', Install_script), (''d2'', Rclone_version),
              (''d2'', Mkdir_config), (''d2'', Write_config ''[gdrive]''),
              (''d2'', Rclone_copyto ''gdrive:drive/t.zip'' ''/tmp/t.zip''),
              (''d2'', Unzip_to ''/tmp/t.zip'' ''/dest''),
              (''d2'', Rm_f ''/tmp/t.zip'')],
             [[(''d1'', Dest_completed, None), (''d2'', Dest_completed, None)]])"
  by (simp add: demo_defs run_defs)

text \<open>
  C4 (as stated). In a split-archive run with \<open>autoExtract\<close>, no extract command runs on
  any destination until every destination has staged every part.

  The code does not wait for that. In the example the dial of \<open>d2\<close> was refused, which
  the preparation does not report; both parts fail on \<open>d2\<close> (no command is started
  there, its slots are \<open>failed\<close>), they count as processed, and the bulk unzip runs on
  \<open>d1\<close>.
\<close>

theorem C4_counterexample:
  "map_option
     (\<lambda>s. (filter (\<lambda>c. is_extract (snd c)) (commands (snd s)),
           filter (\<lambda>c. fst c = ''d2'') (commands (snd s)),
           map (\<lambda>f. map (\<lambda>d. (serverId d, dest_status d)) (destinations f))
             (job_files (snd s) ''job1'')))
     (downloadWorker demo_env_refused (demo_polls [demo_part ''001'', demo_part ''002''])
        (demo_split,
         snd (prepareDestinations demo_env_refused demo_split [''d1'', ''d2''] demo_world)))
   = Some ([(''d1'', Bulk_unzip ''/dest'' ''t'')], [],
           [[(''d1'', Dest_completed), (''d2'', Dest_failed)],
            [(''d1'', Dest_completed), (''d2'', Dest_failed)]])
   \<and> map_option needsSplit (zipInfo demo_split) = Some True
   \<and> autoExtract demo_split
   \<and> destinationServerIds demo_split = [''d1'', ''d2'']"
  by (simp add: demo_defs run_defs)

text \<open>
  C4 (amended). In a split-archive run with \<open>autoExtract\<close>, handling a part on a
  destination starts no extract command (it downloads and moves the file). When the job
  is not cancelled and the download worker returns, its loop has processed every
  announced part on the destinations (a part whose handling failed on a destination
  counts as processed there), the commands started during the loop contain no extract
  command, and the commands started after the loop are those of the bulk extraction.
  The file records of the job are empty when the worker starts, as they are at the
  start of a job.
\<close>

theorem C4_bulk_extract_after_all_parts_processed:
  assumes "zipInfo job = Some zi" and "needsSplit zi" and "autoExtract job"
    and "\<forall>p \<in> set polls. \<not> poll_cancelled p"
    and "job_files w (job_id job) = []"
    and "downloadWorker E polls (job, w) = Some s'"
  shows "(\<forall>fi d v. starts (\<lambda>c. \<not> is_extract c) v (downloadFileToDestination E job fi d v))
    \<and> (\<exists>processedFiles w1 parts bulk.
          downloadLoop E job polls [] w = Some (processedFiles, w1)
          \<and> set (map file_id (job_files w1 (job_id job))) = set processedFiles
          \<and> commands w1 = commands w @ parts
          \<and> list_all (\<lambda>c. \<not> is_extract (snd c)) parts
          \<and> commands (snd s') = commands w1 @ bulk
          \<and> list_all (\<lambda>c. is_bulk (snd c)) bulk)"
proof
  show "\<forall>fi d v. starts (\<lambda>c. \<not> is_extract c) v (downloadFileToDestination E job fi d v)"
    using downloadFileToDestination_starts [OF assms(1,2)] by blast
next
  from assms(6) obtain pf w1 where
    loop: "downloadLoop E job polls [] w = Some (pf, w1)"
    and s': "s' = complete_items E (job, bulkExtractAll E job w1)"
    by (auto simp: downloadWorker_def split: option.splits)
  have "distinct (file_ids w (job_id job))" "set [] \<subseteq> set (file_ids w (job_id job))"
    using assms(5) by (simp_all add: file_ids_def)
  from downloadLoop_all_processed [OF loop assms(4) _ this]
  have all: "set (map file_id (job_files w1 (job_id job))) = set pf"
    by (simp add: file_ids_def)
  from downloadLoop_starts [OF assms(1,2) loop] obtain parts where
    parts: "commands w1 = commands w @ parts" "list_all (\<lambda>c. \<not> is_extract (snd c)) parts"
    by (auto simp: starts_def)
  from bulkExtractAll_starts [of w1 E job] obtain bulk where
    bulk: "commands (bulkExtractAll E job w1) = commands w1 @ bulk"
      "list_all (\<lambda>c. is_bulk (snd c)) bulk"
    by (auto simp: starts_def)
  have "commands (snd s') = commands w1 @ bulk"
    using bulk(1) by (simp add: s')
  with loop all parts bulk(2)
  show "\<exists>processedFiles w1 parts bulk.
          downloadLoop E job polls [] w = Some (processedFiles, w1)
          \<and> set (map file_id (job_files w1 (job_id job))) = set processedFiles
          \<and> commands w1 = commands w @ parts
          \<and> list_all (\<lambda>c. \<not> is_extract (snd c)) parts
          \<and> commands (snd s') = commands w1 @ bulk
          \<and> list_all (\<lambda>c. is_bulk (snd c)) bulk"
    by blast
qed

text \<open>
  The run of the example returns, with these commands: the two parts are downloaded and
  moved on \<open>d1\<close>, then the bulk extraction runs there.
\<close>

lemma demo_split_run:
  "map_option (\<lambda>s. commands (snd s))
     (downloadWorker demo_env_refused (demo_polls [demo_part ''001'', demo_part ''002''])
        (demo_split,
         snd (prepareDestinations demo_env_refused demo_split [''d1'', ''d2''] demo_world)))
   = Some [(''d1'', Rclone_version), (''d1'', Mkdir_config), (''d1'', Write_config ''[gdrive]''),
           (''d1'', Rclone_copyto ''gdrive:drive/t.part001.zip'' ''/tmp/t.part001.zip''),
           (''d1'', Mv ''/tmp/t.part001.zip'' ''/dest/t.part001.zip''),
           (''d1'', Rclone_copyto ''gdrive:drive/t.part002.zip'' ''/tmp/t.part002.zip''),
           (''d1'', Mv ''/tmp/t.part002.zip'' ''/dest/t.part002.zip''),
           (''d1'', Bulk_unzip ''/dest'' ''t''),
           (''d1'', Bulk_rm ''/dest'' ''t'')]"
  by (simp add: demo_defs run_defs)

theorem C4_bulk_extract_after_all_parts_processed_witness:
  "\<exists>s'. downloadWorker demo_env_refused (demo_polls [demo_part ''001'', demo_part ''002''])
          (demo_split,
           snd (prepareDestinations demo_env_refused demo_split [''d1'', ''d2''] demo_world))
        = Some s'
      \<and> (\<exists>processedFiles w1 parts bulk.
          downloadLoop demo_env_refused demo_split
            (demo_polls [demo_part ''001'', demo_part ''002'']) []
            (snd (prepareDestinations demo_env_refused demo_split [''d1'', ''d2''] demo_world))
            = Some (processedFiles, w1)
          \<and> set (map file_id (job_files w1 (job_id demo_split))) = set processedFiles
          \<and> commands w1
              = commands (snd (prepareDestinations demo_env_refused demo_split [''d1'', ''d2'']
                                 demo_world)) @ parts
          \<and> list_all (\<lambda>c. \<not> is_extract (snd c)) parts
          \<and> commands (snd s') = commands w1 @ bulk
          \<and> list_all (\<lambda>c. is_bulk (snd c)) bulk)"
proof -
  let ?zi = "\<lparr>needsSplit = True, limitMB = 1, baseZipName = ''t'', baseZipPath = ''/tmp/t.zip'',
      totalBytes = 2000000, actualParts = Some 2\<rparr>"
  let ?w = "snd (prepareDestinations demo_env_refused demo_split [''d1'', ''d2''] demo_world)"
  have 1: "zipInfo demo_split = Some ?zi" by (simp add: demo_split_def)
  have 2: "needsSplit ?zi" by simp
  have 3: "autoExtract demo_split" by (simp add: demo_split_def demo_job_def)
  have 4: "\<forall>p \<in> set (demo_polls [demo_part ''001'', demo_part ''002'']). \<not> poll_cancelled p"
    by (simp add: demo_polls_def)
  have "uploadedFiles ?w = uploadedFiles demo_world"
    using prepareDestinations_keeps [of demo_env_refused demo_split "[''d1'', ''d2'']" demo_world]
    by simp
  then have 5: "job_files ?w (job_id demo_split) = []"
    by (simp add: job_files_def demo_world_def)
  obtain s' where 6: "downloadWorker demo_env_refused (demo_polls [demo_part ''001'', demo_part ''002''])
      (demo_split, ?w) = Some s'"
    using demo_split_run by auto
  from C4_bulk_extract_after_all_parts_processed [OF 1 2 3 4 5 6] 6 show ?thesis by blast
qed

section \<open>Claims on the packaging\<close>

text \<open>
  C5. The single-archive path is taken exactly when the total size of the source folder
  is at most \<open>B = zipSizeLimitMB * 1024 * 1024\<close> bytes. When \<open>du\<close> has run on the source,
  \<open>prepareSourceFiles\<close> returns one item and records the total that \<open>du\<close> printed (\<open>0\<close> when
  it printed no number); \<open>needsSplit\<close> is false and the item is named
  \<open>transfer_<epoch_ms>.zip\<close> exactly when that total is at most \<open>B\<close>; a total of exactly \<open>B\<close>
  gives no splitting, and a larger total sets \<open>needsSplit\<close>.
\<close>

theorem C5_single_archive_iff_total_within_limit:
  assumes "exec E connectionId (Du (sourceFolder job)) w = (Inr (out, err), w')"
  shows "\<exists>zi it.
      prepareSourceFiles E job connectionId w = (Inr (job\<lparr>zipInfo := Some zi\<rparr>, [it]), w')
      \<and> totalBytes zi = or_zero (parseInt out)
      \<and> ((\<not> needsSplit zi
            \<and> fileName it = ''transfer_'' @ string_of_nat (dateNow E (tick w')) @ ''.zip'')
          \<longleftrightarrow> totalBytes zi \<le> zipSizeLimitMB job * 1024 * 1024)
      \<and> (totalBytes zi = zipSizeLimitMB job * 1024 * 1024 \<longrightarrow> \<not> needsSplit zi)
      \<and> (needsSplit zi \<longleftrightarrow> zipSizeLimitMB job * 1024 * 1024 < totalBytes zi)"
  using assms
  by (auto simp: prepareSourceFiles_def Let_def new_item_def)

text \<open>
  In the example \<open>du\<close> prints 2000000 and the limit is 1 MiB: one item, and \<open>needsSplit\<close> is
  set.
\<close>

theorem C5_single_archive_iff_total_within_limit_witness:
  "\<exists>zi it w'.
      prepareSourceFiles demo_source_env demo_job ''src'' demo_world_src
        = (Inr (demo_job\<lparr>zipInfo := Some zi\<rparr>, [it]), w')
      \<and> totalBytes zi = 2000000 \<and> needsSplit zi"
proof -
  let ?w' = "demo_world_src\<lparr>tick := 1, commands := [(''src'', Du ''/data'')]\<rparr>"
  have run: "exec demo_source_env ''src'' (Du (sourceFolder demo_job)) demo_world_src
      = (Inr (''2000000 /data/big.bin'', ''''), ?w')"
    by (simp add: demo_defs run_defs)
  have size: "or_zero (parseInt ''2000000 /data/big.bin'') = 2000000"
    by (simp add: item_defs run_defs)
  from C5_single_archive_iff_total_within_limit [OF run] obtain zi it where
    res: "prepareSourceFiles demo_source_env demo_job ''src'' demo_world_src
        = (Inr (demo_job\<lparr>zipInfo := Some zi\<rparr>, [it]), ?w')"
    and total: "totalBytes zi = or_zero (parseInt ''2000000 /data/big.bin'')"
    and single: "(\<not> needsSplit zi
        \<and> fileName it = ''transfer_'' @ string_of_nat (dateNow demo_source_env (tick ?w')) @ ''.zip'')
      \<longleftrightarrow> totalBytes zi \<le> zipSizeLimitMB demo_job * 1024 * 1024"
    and split: "needsSplit zi \<longleftrightarrow> zipSizeLimitMB demo_job * 1024 * 1024 < totalBytes zi"
    by blast
  have "zipSizeLimitMB demo_job = 1" by (simp add: demo_job_def)
  with split total size have "needsSplit zi" by simp
  moreover from total size have "totalBytes zi = 2000000" by simp
  ultimately show ?thesis using res by blast
qed

text \<open>
  C7 (as stated). During the upload of batch \<open>i\<close> of \<open>N\<close>, a progress report of \<open>p\<close> percent
  broadcasts the job-level percentage \<open>\<lfloor>((i + p / 100) / N) * 100\<rfloor>\<close>.

  The code rounds to the nearest integer instead (\<open>Math.round\<close>). For the first of three
  batches at 50 percent the scaled value is \<open>16.66...\<close>: the floor is 16, the callback
  broadcasts 17.
\<close>

theorem C7_counterexample:
  "broadcasts (snd (upload_callback 0 0 3 (demo_single\<lparr>items := [demo_failed_item]\<rparr>, demo_world)
       (50, ''1.0 MiB/s'')))
     = [Transfer_progress ''job1'' ''it'' 17 Uploading]
   \<and> \<lfloor>((0 + 50 / 100) / 3) * 100 :: rat\<rfloor> = 16"
proof -
  have "overallPercent 0 50 3 = 17" by code_simp
  moreover have "\<lfloor>((0 + 50 / 100) / 3) * 100 :: rat\<rfloor> = 16" by code_simp
  ultimately show ?thesis
    by (simp add: upload_callback_def item_progress_def update_item_def update_world_def
        the_item_def broadcastProgress_def demo_defs)
qed

text \<open>
  C7 (amended). During the upload of batch \<open>i\<close> of \<open>N\<close>, with \<open>i\<close> counted from 0, a progress
  report of \<open>p\<close> percent, \<open>p\<close> at most 100, broadcasts one message, for the item, with status
  \<open>uploading\<close> and the percentage \<open>Math.round(((i + p / 100) / N) * 100)\<close> computed on doubles.
  With \<open>x\<close> the exact value of \<open>((i + p / 100) / N) * 100\<close>, this percentage is \<open>\<lfloor>x\<rfloor>\<close> or
  \<open>\<lfloor>x\<rfloor> + 1\<close>, it differs from \<open>x\<close> by at most \<open>1 / 2 + 2^-44\<close>, and it is \<open>x\<close> rounded to the
  nearest integer, a half upwards, whenever \<open>x\<close> is farther than \<open>2^-44\<close> from \<open>\<lfloor>x\<rfloor> + 1 / 2\<close>.
  Nearer to a half the rounding of the doubles decides: the first of two batches at 29
  percent has \<open>x = 14.5\<close> and is broadcast as 14.
\<close>

theorem C7_job_level_percent_is_rounded:
  fixes x :: rat
  assumes "i < n" and "p \<le> 100"
    and "x = ((of_nat i + of_nat p / 100) / of_nat n) * 100"
  shows "broadcasts (snd (upload_callback k i n s (p, sp)))
      = broadcasts (snd s)
        @ [Transfer_progress (job_id (fst s)) (item_id (items (fst s) ! k))
             (overallPercent i p n) Uploading]
    \<and> \<lfloor>x\<rfloor> \<le> overallPercent i p n \<and> overallPercent i p n \<le> \<lfloor>x\<rfloor> + 1
    \<and> \<bar>of_int (overallPercent i p n) - x\<bar> \<le> 1 / 2 + 1 / 2 ^ 44
    \<and> (1 / 2 ^ 44 < \<bar>x - (of_int \<lfloor>x\<rfloor> + 1 / 2)\<bar> \<longrightarrow> overallPercent i p n = \<lfloor>x + 1 / 2\<rfloor>)"
proof -
  define d where
    "d = js_mul (js_div (js_add (of_nat i) (js_div (of_nat p) 100)) (of_nat n)) 100"
  define eps :: rat where "eps = 1 / 2 ^ 44"
  have eps: "0 < eps" "eps < 1 / 2" by (simp_all add: eps_def)
  have pct: "overallPercent i p n = \<lfloor>d + 1 / 2\<rfloor>"
    by (simp add: overallPercent_def js_round_def d_def)
  have n: "(0 :: rat) < of_nat n" using assms(1) by simp
  have "(of_nat i :: rat) + of_nat p / 100 \<le> of_nat n"
  proof -
    have "(of_nat i :: rat) + 1 \<le> of_nat n"
      using assms(1) by (metis Suc_eq_plus1 Suc_leI of_nat_1 of_nat_add of_nat_le_iff)
    moreover have "(of_nat p :: rat) / 100 \<le> 1"
      using assms(2) by simp
    ultimately show ?thesis by linarith
  qed
  then have "((of_nat i :: rat) + of_nat p / 100) / of_nat n \<le> 1"
    using n by (simp add: divide_le_eq)
  then have "((of_nat i :: rat) + of_nat p / 100) / of_nat n * 100 \<le> 1 * 100"
    by (intro mult_right_mono) simp_all
  then have x100: "x \<le> 100"
    unfolding assms(3) by simp
  have "\<bar>d - x\<bar> \<le> x * (5 / 2 ^ 53)"
    unfolding d_def assms(3) using assms(1) by (intro overallPercent_error) simp
  also have "x * (5 / 2 ^ 53) \<le> 100 * (5 / 2 ^ 53)"
    using x100 by (intro mult_right_mono) simp_all
  also have "(100 :: rat) * (5 / 2 ^ 53) \<le> eps" by (simp add: eps_def)
  finally have near: "\<bar>d - x\<bar> \<le> eps" .
  then have dl: "x - eps \<le> d" and du: "d \<le> x + eps" by linarith+
  define f where "f = \<lfloor>x\<rfloor>"
  have f: "of_int f \<le> x" "x < of_int f + 1" unfolding f_def by linarith+
  have lower: "f \<le> \<lfloor>d + 1 / 2\<rfloor>"
  proof -
    have "of_int f \<le> d + 1 / 2" using dl eps f by linarith
    then show ?thesis by (simp only: le_floor_iff)
  qed
  have upper: "\<lfloor>d + 1 / 2\<rfloor> \<le> f + 1"
  proof -
    have "d + 1 / 2 < of_int (f + 2)" using du eps f by simp
    then have "\<lfloor>d + 1 / 2\<rfloor> < f + 2" by (simp only: floor_less_iff)
    then show ?thesis by simp
  qed
  have dist: "\<bar>of_int \<lfloor>d + 1 / 2\<rfloor> - x\<bar> \<le> 1 / 2 + eps"
  proof -
    have "of_int \<lfloor>d + 1 / 2\<rfloor> \<le> d + 1 / 2" "d + 1 / 2 < of_int \<lfloor>d + 1 / 2\<rfloor> + 1"
      by linarith+
    with dl du show ?thesis by linarith
  qed
  have exact: "\<lfloor>d + 1 / 2\<rfloor> = \<lfloor>x + 1 / 2\<rfloor>" if far: "eps < \<bar>x - (of_int f + 1 / 2)\<bar>"
  proof (cases "x < of_int f + 1 / 2")
    case True
    with far have gap: "eps < of_int f + 1 / 2 - x" by linarith
    have "of_int f \<le> d + 1 / 2" "d + 1 / 2 < of_int f + 1"
      using dl du gap f eps by linarith+
    then have "\<lfloor>d + 1 / 2\<rfloor> = f" by (rule floor_unique)
    moreover have "of_int f \<le> x + 1 / 2" "x + 1 / 2 < of_int f + 1"
      using True f by linarith+
    then have "\<lfloor>x + 1 / 2\<rfloor> = f" by (rule floor_unique)
    ultimately show ?thesis by simp
  next
    case False
    with far have gap: "eps < x - (of_int f + 1 / 2)" by linarith
    have "of_int (f + 1) \<le> d + 1 / 2" "d + 1 / 2 < of_int (f + 1) + 1"
      using dl du gap f eps by simp_all
    then have "\<lfloor>d + 1 / 2\<rfloor> = f + 1" by (rule floor_unique)
    moreover have "of_int (f + 1) \<le> x + 1 / 2" "x + 1 / 2 < of_int (f + 1) + 1"
      using False f by simp_all
    then have "\<lfloor>x + 1 / 2\<rfloor> = f + 1" by (rule floor_unique)
    ultimately show ?thesis by simp
  qed
  have same: "item_id ((items (fst s))[k := (items (fst s) ! k)
        \<lparr>progress := overallPercent i p n, speed := Some sp\<rparr>] ! k)
      = item_id (items (fst s) ! k)"
    by (cases "k < length (items (fst s))") (simp_all add: list_update_beyond)
  have sent: "broadcasts (snd (upload_callback k i n s (p, sp)))
      = broadcasts (snd s)
        @ [Transfer_progress (job_id (fst s)) (item_id (items (fst s) ! k))
             (overallPercent i p n) Uploading]"
    by (simp add: upload_callback_def item_progress_def update_item_def update_world_def
        the_item_def broadcastProgress_def same)
  from sent lower upper dist exact show ?thesis
    unfolding pct f_def eps_def by blast
qed

text \<open>
  The first of three batches at 50 percent: \<open>x\<close> is \<open>50 / 3\<close>, a sixth away from \<open>16.5\<close>, and
  17 is broadcast.
\<close>

theorem C7_job_level_percent_is_rounded_witness:
  "(0 :: nat) < 3 \<and> (50 :: nat) \<le> 100
   \<and> 1 / 2 ^ 44 < \<bar>(50 / 3 :: rat) - (of_int \<lfloor>50 / 3 :: rat\<rfloor> + 1 / 2)\<bar>
   \<and> overallPercent 0 50 3 = 17
   \<and> broadcasts (snd (upload_callback 0 0 3 (demo_single\<lparr>items := [demo_failed_item]\<rparr>, demo_world)
         (50, ''1.0 MiB/s'')))
     = [Transfer_progress ''job1'' ''it'' (overallPercent 0 50 3) Uploading]"
proof -
  have x: "(50 / 3 :: rat) = ((of_nat 0 + of_nat 50 / 100) / of_nat 3) * 100" by simp
  have fl: "\<lfloor>50 / 3 :: rat\<rfloor> = 16" "\<lfloor>50 / 3 + 1 / 2 :: rat\<rfloor> = 17" by code_simp+
  have far: "1 / 2 ^ 44 < \<bar>(50 / 3 :: rat) - (of_int \<lfloor>50 / 3 :: rat\<rfloor> + 1 / 2)\<bar>"
    by (simp add: fl)
  from C7_job_level_percent_is_rounded
    [of 0 3 50 "50 / 3" 0 "(demo_single\<lparr>items := [demo_failed_item]\<rparr>, demo_world)" "''1.0 MiB/s''",
      OF _ _ x] far fl
  show ?thesis by (simp add: demo_defs)
qed


text \<open>
  The stored job of the example has one failed item. With a session on the source the
  retry zips, reads the size and uploads, and the stored item is \<open>uploaded\<close> with one retry.
\<close>

lemma demo_retry_run:
  "(case retryItem demo_source_env ''job1'' ''it'' demo_world_retry of
      (job', w') \<Rightarrow>
        (map_option (\<lambda>j. map (\<lambda>i. (status i, progress i, error i, retryCount i)) (items j)) job',
         commands w',
         map_option (\<lambda>j. map (\<lambda>i. (status i, retryCount i)) (items j)) (getJobById w' ''job1'')))
   = (Some [(Uploaded, 100, None, 1)],
      [(''src'', Zip_all ''/data'' ''/tmp/t.zip''), (''src'', Stat_size ''/tmp/t.zip''),
       (''src'', Rclone_copyto ''/tmp/t.zip'' ''gdrive:drive/t.zip'')],
      Some [(Uploaded, 1)])"
  by (simp add: demo_defs run_defs item_defs)


section \<open>Claims on the connection pool\<close>

text \<open>
  C10. For a connection id with no session in the pool, each of \<open>exec\<close>,
  \<open>execWithProgress\<close>, \<open>uploadFile\<close>, \<open>downloadFile\<close> and \<open>listDirectory\<close> rejects with
  \<open>No connection found with id: <id>\<close> and leaves the pool, and everything else,
  unchanged.
\<close>

theorem C10_no_connection_rejects_and_keeps_pool:
  assumes "connections w connectionId = None"
  shows "exec E connectionId cmd w = (Inl (''No connection found with id: '' @ connectionId), w)
    \<and> execWithProgress E connectionId cmd w
        = (Inl (''No connection found with id: '' @ connectionId), w)
    \<and> uploadFile E connectionId localPath remotePath w
        = (Inl (''No connection found with id: '' @ connectionId), w)
    \<and> downloadFile E connectionId remotePath localPath w
        = (Inl (''No connection found with id: '' @ connectionId), w)
    \<and> listDirectory E connectionId dirPath options w
        = (Inl (''No connection found with id: '' @ connectionId), w)"
  using assms
  by (simp add: exec_def execWithProgress_def uploadFile_def downloadFile_def listDirectory_def
      no_connection_def)

text \<open>In the example only \<open>src\<close> has a session: a command for \<open>d1\<close> is rejected.\<close>

theorem C10_no_connection_rejects_and_keeps_pool_witness:
  "connections demo_world_src ''d1'' = None
   \<and> exec demo_env ''d1'' Rclone_version demo_world_src
       = (Inl ''No connection found with id: d1'', demo_world_src)
   \<and> listDirectory demo_env ''d1'' ''/'' None demo_world_src
       = (Inl ''No connection found with id: d1'', demo_world_src)"
proof -
  have none: "connections demo_world_src ''d1'' = None"
    by (simp add: demo_world_src_def demo_world_def)
  from C10_no_connection_rejects_and_keeps_pool
    [OF none, where E = demo_env and cmd = Rclone_version and dirPath = "''/''"
      and options = None]
    none
  show ?thesis by simp
qed

end
